theory Spec2Isabelle
  imports Main "HOL-Library.Word"
begin

unbundle bit_operations_syntax

section \<open>Data model of package p2p\<close>

text \<open>
  The package orchestrates calls into libp2p, the Kademlia DHT and logrus. Every call that
  leaves the package is recorded as an event of the process trace, and its result comes
  from an oracle for the library (a record of functions over an opaque world state), so
  that the theorems hold for every behaviour of the network.
\<close>

type_synonym byte = "8 word"

text \<open>A Go \<open>error\<close> value is its message; the nil error is \<open>None\<close>.\<close>
type_synonym error = string

text \<open>\<open>peer.ID\<close> is a Go string type; a multiaddr is kept as its text.\<close>
type_synonym peer_ID = string
type_synonym multiaddr = string

text \<open>\<open>time.Duration\<close>: a count of nanoseconds.\<close>
type_synonym duration = int

text \<open>
  \<open>context.Context\<close>: the background context, or a context with an identity of its own
  and a cancellation state.
\<close>
datatype ctx = Background | Scoped nat bool

record AddrInfo =
  ID :: peer_ID
  Addrs :: "multiaddr list"

text \<open>\<open>host.Host\<close>: the handle of the libp2p host; \<open>host_ID\<close> is what its method \<open>ID()\<close> returns.\<close>
record host =
  host_ID :: peer_ID
  host_Addrs :: "multiaddr list"

text \<open>Handles of the DHT, the routing discovery and the PubSub service (Go pointers).\<close>
datatype dht = IpfsDHT nat
datatype discovery = RoutingDiscovery nat
datatype pubsub = PubSub_handle nat

text \<open>
  A receive-only channel of \<open>peer.AddrInfo\<close>, as the sequence of what its sender does with
  it from now on: a value sent, or the close. A sequence that ends without \<open>Close\<close> is a
  channel left open with nothing more to come.
\<close>
datatype chan_event = Send AddrInfo | Close

type_synonym peerchan = "chan_event list"

text \<open>A content identifier as \<open>cid.NewCidV1\<close> builds it: version, codec and multihash bytes.\<close>
record Cid =
  cid_version :: nat
  cid_codec :: "64 word"
  cid_hash :: "byte list"

subsection \<open>The P2P structure\<close>

record P2P =
  Ctx :: ctx
  Host :: host
  KadDHT :: dht
  Discovery :: discovery
  PubSub :: pubsub
  service :: string

subsection \<open>Events, process state and library oracle\<close>

datatype loglevel = Trace | Debug | Info | Fatal | Println

datatype logarg = LStr string | LErr error | LPeer peer_ID | LDuration duration
  | LInt32 "32 word" | LCid Cid

datatype goroutine = Go_handlePeerDiscovery host peerchan

text \<open>
  A library call is recorded with its arguments and with the error it returned
  (\<open>None\<close> for nil).
\<close>
datatype event =
    EvAdvertise discovery ctx string duration "error option"
  | EvFindPeers discovery ctx string "error option"
  | EvProvide dht ctx Cid bool "error option"
  | EvFindProvidersAsync dht ctx Cid int
  | EvBootstrap dht ctx "error option"
  | EvConnect host ctx AddrInfo "error option"
  | EvSleep nat
  | EvLog loglevel "(string \<times> string) list" "logarg list"
  | EvGo goroutine

text \<open>
  The state of the running process: the world behind the library handles, the trace of
  events so far and the goroutines started with \<open>go\<close>.
\<close>
record 'w proc =
  world :: 'w
  trace :: "event list"
  spawned :: "goroutine list"

text \<open>How a function leaves: it returns, or the process ends (\<open>os.Exit\<close>, a panic).\<close>
datatype 'a outcome = Returned 'a | Exited nat | Panicked string

record 'w lib =
  lib_Advertise :: "discovery \<Rightarrow> ctx \<Rightarrow> string \<Rightarrow> 'w \<Rightarrow> (duration \<times> error option) \<times> 'w"
  lib_FindPeers :: "discovery \<Rightarrow> ctx \<Rightarrow> string \<Rightarrow> 'w \<Rightarrow> (peerchan \<times> error option) \<times> 'w"
  lib_Provide :: "dht \<Rightarrow> ctx \<Rightarrow> Cid \<Rightarrow> bool \<Rightarrow> 'w \<Rightarrow> error option \<times> 'w"
  lib_FindProvidersAsync :: "dht \<Rightarrow> ctx \<Rightarrow> Cid \<Rightarrow> int \<Rightarrow> 'w \<Rightarrow> peerchan \<times> 'w"
  lib_Bootstrap :: "dht \<Rightarrow> ctx \<Rightarrow> 'w \<Rightarrow> error option \<times> 'w"
  lib_Connect :: "host \<Rightarrow> ctx \<Rightarrow> AddrInfo \<Rightarrow> 'w \<Rightarrow> error option \<times> 'w"
  lib_AddrInfoFromP2pAddr :: "multiaddr \<Rightarrow> AddrInfo option \<times> error option"
  lib_DefaultBootstrapPeers :: "multiaddr list"

definition emit :: "event \<Rightarrow> 'w proc \<Rightarrow> 'w proc" where
  "emit e s = s\<lparr>trace := trace s @ [e]\<rparr>"

definition logrus :: "loglevel \<Rightarrow> logarg list \<Rightarrow> 'w proc \<Rightarrow> 'w proc" where
  "logrus lvl args s = emit (EvLog lvl [] args) s"

definition logrus_WithFields ::
  "(string \<times> string) list \<Rightarrow> loglevel \<Rightarrow> logarg list \<Rightarrow> 'w proc \<Rightarrow> 'w proc" where
  "logrus_WithFields flds lvl args s = emit (EvLog lvl flds args) s"

definition time_Sleep :: "nat \<Rightarrow> 'w proc \<Rightarrow> 'w proc" where
  "time_Sleep secs s = emit (EvSleep secs) s"

definition go :: "goroutine \<Rightarrow> 'w proc \<Rightarrow> 'w proc" where
  "go g s = (emit (EvGo g) s)\<lparr>spawned := spawned s @ [g]\<rparr>"

definition Advertise ::
  "'w lib \<Rightarrow> discovery \<Rightarrow> ctx \<Rightarrow> string \<Rightarrow> 'w proc \<Rightarrow> (duration \<times> error option) \<times> 'w proc" where
  "Advertise L d c ns s =
     (let ((ttl, err), w) = lib_Advertise L d c ns (world s)
      in ((ttl, err), emit (EvAdvertise d c ns ttl err) (s\<lparr>world := w\<rparr>)))"

definition FindPeers ::
  "'w lib \<Rightarrow> discovery \<Rightarrow> ctx \<Rightarrow> string \<Rightarrow> 'w proc \<Rightarrow> (peerchan \<times> error option) \<times> 'w proc" where
  "FindPeers L d c ns s =
     (let ((ch, err), w) = lib_FindPeers L d c ns (world s)
      in ((ch, err), emit (EvFindPeers d c ns err) (s\<lparr>world := w\<rparr>)))"

definition Provide ::
  "'w lib \<Rightarrow> dht \<Rightarrow> ctx \<Rightarrow> Cid \<Rightarrow> bool \<Rightarrow> 'w proc \<Rightarrow> error option \<times> 'w proc" where
  "Provide L d c k brdcst s =
     (let (err, w) = lib_Provide L d c k brdcst (world s)
      in (err, emit (EvProvide d c k brdcst err) (s\<lparr>world := w\<rparr>)))"

definition FindProvidersAsync ::
  "'w lib \<Rightarrow> dht \<Rightarrow> ctx \<Rightarrow> Cid \<Rightarrow> int \<Rightarrow> 'w proc \<Rightarrow> peerchan \<times> 'w proc" where
  "FindProvidersAsync L d c k cnt s =
     (let (ch, w) = lib_FindProvidersAsync L d c k cnt (world s)
      in (ch, emit (EvFindProvidersAsync d c k cnt) (s\<lparr>world := w\<rparr>)))"

definition Bootstrap :: "'w lib \<Rightarrow> dht \<Rightarrow> ctx \<Rightarrow> 'w proc \<Rightarrow> error option \<times> 'w proc" where
  "Bootstrap L d c s =
     (let (err, w) = lib_Bootstrap L d c (world s)
      in (err, emit (EvBootstrap d c err) (s\<lparr>world := w\<rparr>)))"

definition Connect :: "'w lib \<Rightarrow> host \<Rightarrow> ctx \<Rightarrow> AddrInfo \<Rightarrow> 'w proc \<Rightarrow> error option \<times> 'w proc" where
  "Connect L h c pi s =
     (let (err, w) = lib_Connect L h c pi (world s)
      in (err, emit (EvConnect h c pi err) (s\<lparr>world := w\<rparr>)))"

section \<open>handlePeerDiscovery\<close>

text \<open>
  The \<open>for peer := range peerchan\<close> loop. It ends when the channel is closed; on a channel
  left open and empty the receive blocks, which is the status \<open>Blocked\<close>.
\<close>

datatype task_status = Finished | Blocked

fun handlePeerDiscovery ::
  "'w lib \<Rightarrow> host \<Rightarrow> peerchan \<Rightarrow> 'w proc \<Rightarrow> task_status \<times> 'w proc" where
  "handlePeerDiscovery L nodehost [] s = (Blocked, s)"
| "handlePeerDiscovery L nodehost (Close # rest) s = (Finished, s)"
| "handlePeerDiscovery L nodehost (Send peer # rest) s =
     (if ID peer = host_ID nodehost then handlePeerDiscovery L nodehost rest s
      else
        let (err, s1) = Connect L nodehost Background peer s;
            s2 = (case err of
                    Some e \<Rightarrow> logrus Debug [LStr ''p2p peer connection failed: '', LErr e] s1
                  | None \<Rightarrow> s1);
            s3 = logrus Debug [LStr ''p2p peer connection success: '', LPeer (ID peer)] s2;
            s4 = emit (EvLog Println [] [LStr ''p2p peer connection success: '', LPeer (ID peer)]) s3
        in handlePeerDiscovery L nodehost rest s4)"

text \<open>The connect calls of a trace, in order: the context and the peer of each.\<close>
fun connect_calls :: "event list \<Rightarrow> (ctx \<times> AddrInfo) list" where
  "connect_calls [] = []"
| "connect_calls (EvConnect h c pi err # es) = (c, pi) # connect_calls es"
| "connect_calls (e # es) = connect_calls es"

text \<open>The values received from a channel before it is closed.\<close>
fun received :: "peerchan \<Rightarrow> AddrInfo list" where
  "received [] = []"
| "received (Close # rest) = []"
| "received (Send p # rest) = p # received rest"

text \<open>The events a run added to the trace it started from.\<close>
definition since :: "'w proc \<Rightarrow> 'w proc \<Rightarrow> event list" where
  "since s s' = drop (length (trace s)) (trace s')"

section \<open>generateCID\<close>

subsection \<open>crypto/sha256\<close>

text \<open>
  Modelled from the spec: \<open>sha256.Sum256\<close> (the "collision-resistant digest of the service
  name") is the Go standard library's and not among the sources. It is SHA-256 as
  FIPS 180-4 defines it: the message is padded to a multiple of 64 bytes with its length in
  bits (a 64-bit count, as Go's \<open>len << 3\<close>), and each block is compressed into the eight
  32-bit words of the state. The result is Go's \<open>[32]byte\<close>. The round constants
  (the fractional parts of the cube roots of the first 64 primes) and the initial state
  (those of the square roots of the first 8) are written in decimal.
\<close>

type_synonym w32 = "32 word"

definition K256 :: "w32 list" where
  "K256 = [
    1116352408, 1899447441, 3049323471, 3921009573, 961987163, 1508970993, 2453635748, 2870763221,
    3624381080, 310598401, 607225278, 1426881987, 1925078388, 2162078206, 2614888103, 3248222580,
    3835390401, 4022224774, 264347078, 604807628, 770255983, 1249150122, 1555081692, 1996064986,
    2554220882, 2821834349, 2952996808, 3210313671, 3336571891, 3584528711, 113926993, 338241895,
    666307205, 773529912, 1294757372, 1396182291, 1695183700, 1986661051, 2177026350, 2456956037,
    2730485921, 2820302411, 3259730800, 3345764771, 3516065817, 3600352804, 4094571909, 275423344,
    430227734, 506948616, 659060556, 883997877, 958139571, 1322822218, 1537002063, 1747873779,
    1955562222, 2024104815, 2227730452, 2361852424, 2428436474, 2756734187, 3204031479, 3329325298]"

definition rotr :: "nat \<Rightarrow> w32 \<Rightarrow> w32" where
  "rotr n x = drop_bit n x OR push_bit (32 - n) x"

definition Ch :: "w32 \<Rightarrow> w32 \<Rightarrow> w32 \<Rightarrow> w32" where
  "Ch x y z = (x AND y) XOR (NOT x AND z)"

definition Maj :: "w32 \<Rightarrow> w32 \<Rightarrow> w32 \<Rightarrow> w32" where
  "Maj x y z = (x AND y) XOR (x AND z) XOR (y AND z)"

definition bsig0 :: "w32 \<Rightarrow> w32" where
  "bsig0 x = rotr 2 x XOR rotr 13 x XOR rotr 22 x"

definition bsig1 :: "w32 \<Rightarrow> w32" where
  "bsig1 x = rotr 6 x XOR rotr 11 x XOR rotr 25 x"

definition ssig0 :: "w32 \<Rightarrow> w32" where
  "ssig0 x = rotr 7 x XOR rotr 18 x XOR drop_bit 3 x"

definition ssig1 :: "w32 \<Rightarrow> w32" where
  "ssig1 x = rotr 17 x XOR rotr 19 x XOR drop_bit 10 x"

definition be32 :: "byte list \<Rightarrow> w32" where
  "be32 bs = foldl (\<lambda>acc b. push_bit 8 acc OR ucast b) 0 bs"

definition bytes_be32 :: "w32 \<Rightarrow> byte list" where
  "bytes_be32 x = [ucast (drop_bit 24 x), ucast (drop_bit 16 x), ucast (drop_bit 8 x), ucast x]"

definition bytes_be64 :: "64 word \<Rightarrow> byte list" where
  "bytes_be64 x = map (\<lambda>i. ucast (drop_bit (8 * (7 - i)) x)) [0..<8]"

fun chunks :: "nat \<Rightarrow> 'a list \<Rightarrow> 'a list list" where
  "chunks 0 xs = []"
| "chunks n [] = []"
| "chunks n xs = take n xs # chunks n (drop n xs)"

definition pad256 :: "byte list \<Rightarrow> byte list" where
  "pad256 m = m @ [0x80] @ replicate ((55 + 64 - length m mod 64) mod 64) 0
                @ bytes_be64 (push_bit 3 (word_of_nat (length m)))"

fun schedule :: "nat \<Rightarrow> w32 list \<Rightarrow> w32 list" where
  "schedule 0 ws = ws"
| "schedule (Suc n) ws =
     (let t = length ws
      in schedule n
           (ws @ [ssig1 (ws ! (t - 2)) + ws ! (t - 7) + ssig0 (ws ! (t - 15)) + ws ! (t - 16)]))"

type_synonym vars = "w32 \<times> w32 \<times> w32 \<times> w32 \<times> w32 \<times> w32 \<times> w32 \<times> w32"

fun round256 :: "vars \<Rightarrow> w32 \<times> w32 \<Rightarrow> vars" where
  "round256 (a, b, c, d, e, f, g, h) (k, w) =
     (let t1 = h + bsig1 e + Ch e f g + k + w;
          t2 = bsig0 a + Maj a b c
      in (t1 + t2, a, b, c, d + t1, e, f, g))"

fun block256 :: "vars \<Rightarrow> byte list \<Rightarrow> vars" where
  "block256 (h0, h1, h2, h3, h4, h5, h6, h7) blk =
     (let w = schedule 48 (map be32 (chunks 4 blk));
          (a, b, c, d, e, f, g, h) = foldl round256 (h0, h1, h2, h3, h4, h5, h6, h7) (zip K256 w)
      in (h0 + a, h1 + b, h2 + c, h3 + d, h4 + e, h5 + f, h6 + g, h7 + h))"

definition init256 :: vars where
  "init256 = (1779033703, 3144134277, 1013904242, 2773480762,
              1359893119, 2600822924, 528734635, 1541459225)"

fun digest_bytes :: "vars \<Rightarrow> byte list" where
  "digest_bytes (h0, h1, h2, h3, h4, h5, h6, h7) =
     concat (map bytes_be32 [h0, h1, h2, h3, h4, h5, h6, h7])"

definition Sum256 :: "byte list \<Rightarrow> byte list" where
  "Sum256 msg = digest_bytes (foldl block256 init256 (chunks 64 (pad256 msg)))"

text \<open>Go's conversion \<open>[]byte(namestring)\<close>: a string is its bytes.\<close>
definition bytes_of_string :: "string \<Rightarrow> byte list" where
  "bytes_of_string str = map of_char str"

subsection \<open>base58\<close>

text \<open>
  Modelled from the spec: the package \<open>github.com/mr-tron/base58\<close> is not among the sources.
  Base58 with the Bitcoin alphabet, as the package computes it: every leading zero byte
  becomes the alphabet's first character, and the rest of the input, read as a big-endian
  number, is written in base 58 with no leading zero digit. \<open>Decode\<close> refuses the empty
  string and every character outside the alphabet, and inverts the encoding.
\<close>

function digits :: "nat \<Rightarrow> nat \<Rightarrow> nat list" where
  "digits b n = (if n = 0 \<or> b < 2 then [] else digits b (n div b) @ [n mod b])"
  by pat_completeness auto
termination
  by (relation "measure (\<lambda>(b, n). n)") auto

definition from_digits :: "nat \<Rightarrow> nat list \<Rightarrow> nat" where
  "from_digits b ds = foldl (\<lambda>a d. b * a + d) 0 ds"

definition b58Alphabet :: string where
  "b58Alphabet = ''123456789ABCDEFGHJKLMNPQRSTUVWXYZabcdefghijkmnopqrstuvwxyz''"

text \<open>\<open>zcount\<close>: the number of leading elements equal to \<open>z\<close>.\<close>
definition zcount :: "'a \<Rightarrow> 'a list \<Rightarrow> nat" where
  "zcount z xs = length (takeWhile (\<lambda>x. x = z) xs)"

definition Encode :: "byte list \<Rightarrow> string" where
  "Encode bin =
     replicate (zcount 0 bin) (b58Alphabet ! 0)
     @ map (\<lambda>d. b58Alphabet ! d) (digits 58 (from_digits 256 (map unat bin)))"

definition b58_digit :: "char \<Rightarrow> error + nat" where
  "b58_digit r =
     (if (of_char r :: nat) > 127 then Inl ''high-bit set on invalid digit''
      else case map_of (zip b58Alphabet [0..<58]) r of
             None \<Rightarrow> Inl ''invalid base58 digit''
           | Some d \<Rightarrow> Inr d)"

fun b58_digits :: "string \<Rightarrow> error + nat list" where
  "b58_digits [] = Inr []"
| "b58_digits (r # rs) =
     (case b58_digit r of
        Inl e \<Rightarrow> Inl e
      | Inr d \<Rightarrow> (case b58_digits rs of Inl e \<Rightarrow> Inl e | Inr ds \<Rightarrow> Inr (d # ds)))"

definition Decode :: "string \<Rightarrow> error + byte list" where
  "Decode str =
     (if str = [] then Inl ''zero length string''
      else case b58_digits str of
             Inl e \<Rightarrow> Inl e
           | Inr ds \<Rightarrow>
               Inr (replicate (zcount (b58Alphabet ! 0) str) 0
                    @ map word_of_nat (digits 256 (from_digits 58 ds))))"

subsection \<open>multihash and cid\<close>

text \<open>
  Modelled from the spec: the packages \<open>github.com/multiformats/go-multihash\<close>,
  \<open>go-varint\<close> and \<open>github.com/ipfs/go-cid\<close> are not among the sources. A multihash is the
  unsigned varint of the hash function's code, the unsigned varint of the digest's length
  and the digest ("fixed codec/length tags identifying the hash function and digest size");
  \<open>FromB58String\<close> decodes base58 and accepts the bytes when they parse as exactly one
  multihash. A varint has at most nine bytes, seven bits each, least significant first,
  minimally encoded.
\<close>

fun FromUvarint :: "nat \<Rightarrow> nat \<Rightarrow> 64 word \<Rightarrow> byte list \<Rightarrow> error + (64 word \<times> nat)" where
  "FromUvarint i sh x [] = Inl ''varints malformed, could not reach the end''"
| "FromUvarint i sh x (b # buf) =
     (if (i = 8 \<and> b \<ge> 0x80) \<or> i \<ge> 9 then Inl ''varints larger than uint63 not supported''
      else if b < 0x80 then
        (if b = 0 \<and> sh > 0 then Inl ''varint not minimally encoded''
         else Inr (x OR push_bit sh (ucast b), i + 1))
      else FromUvarint (i + 1) (sh + 7) (x OR push_bit sh (ucast (b AND 0x7f))) buf)"

definition uvarint :: "byte list \<Rightarrow> error + (64 word \<times> byte list)" where
  "uvarint buf =
     (case FromUvarint 0 0 0 buf of
        Inl e \<Rightarrow> Inl e
      | Inr (n, c) \<Rightarrow> Inr (n, drop c buf))"

definition readMultihashFromBuf :: "byte list \<Rightarrow> error + (nat \<times> 64 word \<times> byte list)" where
  "readMultihashFromBuf buf =
     (if length buf < 2 then Inl ''multihash too short. must be >= 2 bytes''
      else case uvarint buf of
        Inl e \<Rightarrow> Inl e
      | Inr (code, buf1) \<Rightarrow>
          (case uvarint buf1 of
             Inl e \<Rightarrow> Inl e
           | Inr (len, buf2) \<Rightarrow>
               if len > 0x7fffffff then Inl ''digest too long, supporting only <= 2^31-1''
               else if unat len > length buf2
                 then Inl ''length greater than remaining number of bytes in buffer''
               else Inr (length buf - length buf2 + unat len, code, take (unat len) buf2)))"

definition mh_Decode :: "byte list \<Rightarrow> error + (64 word \<times> byte list)" where
  "mh_Decode buf =
     (case readMultihashFromBuf buf of
        Inl e \<Rightarrow> Inl e
      | Inr (rlen, code, hdig) \<Rightarrow>
          if rlen \<noteq> length buf then Inl ''multihash length inconsistent''
          else Inr (code, hdig))"

definition Cast :: "byte list \<Rightarrow> error + byte list" where
  "Cast buf = (case mh_Decode buf of Inl e \<Rightarrow> Inl e | Inr dm \<Rightarrow> Inr buf)"

definition FromB58String :: "string \<Rightarrow> error + byte list" where
  "FromB58String str =
     (case Decode str of
        Inl e \<Rightarrow> Inl ''input isn't valid multihash''
      | Inr b \<Rightarrow> Cast b)"

definition NewCidV1 :: "64 word \<Rightarrow> byte list \<Rightarrow> Cid" where
  "NewCidV1 codecType mhash = \<lparr>cid_version = 1, cid_codec = codecType, cid_hash = mhash\<rparr>"

subsection \<open>The function\<close>

text \<open>
  \<open>Fatalln\<close> logs at level fatal and ends the process with \<open>os.Exit(1)\<close>.
\<close>
definition Fatalln ::
  "(string \<times> string) list \<Rightarrow> logarg list \<Rightarrow> 'w proc \<Rightarrow> 'a outcome \<times> 'w proc" where
  "Fatalln flds args s = (Exited 1, logrus_WithFields flds Fatal args s)"

definition generateCID :: "string \<Rightarrow> 'w proc \<Rightarrow> Cid outcome \<times> 'w proc" where
  "generateCID namestring s =
     (let hash = Sum256 (bytes_of_string namestring);
          finalhash = [0x12, 0x20] @ hash;
          b58string = Encode finalhash
      in case FromB58String b58string of
           Inl err \<Rightarrow> Fatalln [(''error'', err)] [LStr ''Failed to Generate Service CID!''] s
         | Inr mulhash \<Rightarrow> (Returned (NewCidV1 12 mulhash), s))"

section \<open>AdvertiseConnect and AnnounceConnect\<close>

text \<open>
  A method of \<open>*P2P\<close> takes the structure and the process state, and gives back how it left,
  the structure as it then is and the new process state.
\<close>

definition AdvertiseConnect :: "'w lib \<Rightarrow> P2P \<Rightarrow> 'w proc \<Rightarrow> unit outcome \<times> P2P \<times> 'w proc" where
  "AdvertiseConnect L p2p s =
     (let ((ttl, err), s1) = Advertise L (Discovery p2p) (Ctx p2p) (service p2p) s;
          s2 = logrus Debug [LStr ''Advertised the p2p Service.''] s1;
          s3 = time_Sleep 5 s2;
          s4 = logrus Debug [LStr ''Service Time-to-Live is %s'', LDuration ttl] s3;
          ((peerchan, err), s5) = FindPeers L (Discovery p2p) (Ctx p2p) (service p2p) s4
      in case err of
           Some e \<Rightarrow>
             (let (out, s6) = Fatalln [(''error'', e)] [LStr ''P2P Peer Discovery Failed!''] s5
              in (out, p2p, s6))
         | None \<Rightarrow>
             (let s6 = logrus Trace [LStr ''Discovered p2p Service Peers.''] s5;
                  s7 = go (Go_handlePeerDiscovery (Host p2p) peerchan) s6;
                  s8 = logrus Trace [LStr ''Started Peer Connection Handler.''] s7
              in (Returned (), p2p, s8)))"

definition AnnounceConnect :: "'w lib \<Rightarrow> P2P \<Rightarrow> 'w proc \<Rightarrow> unit outcome \<times> P2P \<times> 'w proc" where
  "AnnounceConnect L p2p s =
     (case generateCID (service p2p) s of
        (Exited n, s0) \<Rightarrow> (Exited n, p2p, s0)
      | (Panicked msg, s0) \<Rightarrow> (Panicked msg, p2p, s0)
      | (Returned cidvalue, s0) \<Rightarrow>
          (let s1 = logrus Debug [LStr ''cidvalue '', LCid cidvalue] s0;
               s2 = logrus Trace [LStr ''Generated the Service CID.''] s1;
               (err, s3) = Provide L (KadDHT p2p) (Ctx p2p) cidvalue True s2
           in case err of
                Some e \<Rightarrow>
                  (let (out, s4) = Fatalln [(''error'', e)] [LStr ''Failed to Announce Service CID!''] s3
                   in (out, p2p, s4))
              | None \<Rightarrow>
                  (let s4 = logrus Debug [LStr ''Announced the p2p Service.''] s3;
                       s5 = time_Sleep 5 s4;
                       (peerchan, s6) = FindProvidersAsync L (KadDHT p2p) (Ctx p2p) cidvalue 0 s5;
                       s7 = logrus Trace [LStr ''Discovered p2p Service Peers.''] s6;
                       s8 = go (Go_handlePeerDiscovery (Host p2p) peerchan) s7;
                       s9 = logrus Debug [LStr ''Started Peer Connection Handler.''] s8
                   in (Returned (), p2p, s9))))"

text \<open>
  Running a goroutine to the point where it ends or blocks, and a discovery call together
  with the handler it started.
\<close>
fun run_goroutine :: "'w lib \<Rightarrow> goroutine \<Rightarrow> 'w proc \<Rightarrow> task_status \<times> 'w proc" where
  "run_goroutine L (Go_handlePeerDiscovery nodehost peerchan) s =
     handlePeerDiscovery L nodehost peerchan s"

fun run_goroutines :: "'w lib \<Rightarrow> goroutine list \<Rightarrow> 'w proc \<Rightarrow> 'w proc" where
  "run_goroutines L [] s = s"
| "run_goroutines L (g # gs) s = run_goroutines L gs (snd (run_goroutine L g s))"

definition with_handlers :: "'w lib \<Rightarrow> 'w proc \<Rightarrow> unit outcome \<times> P2P \<times> 'w proc \<Rightarrow> 'w proc" where
  "with_handlers L s r =
     (case r of
        (Returned u, p2p, s') \<Rightarrow> run_goroutines L (drop (length (spawned s)) (spawned s')) s'
      | (out, p2p, s') \<Rightarrow> s')"

section \<open>bootstrapDHT\<close>

text \<open>
  The function starts one goroutine per bootstrap peer and waits for all of them, so it is
  a transition system: the state holds the local variables, the position of the main
  goroutine and the position of every goroutine started, and a step is taken by the main
  goroutine or by one of the others, in any order.

  The closure of goroutine \<open>i\<close> holds \<open>peerinfo\<close>, the pointer \<open>AddrInfoFromP2pAddr\<close> returned
  (\<open>None\<close> is nil). \<open>defer wg.Done()\<close> runs when the body ends, also when it ends in a panic:
  a nil \<open>peerinfo\<close> panics at \<open>*peerinfo\<close>, the deferred call runs and the process crashes.
  A call to \<open>Connect\<close> is one step of its goroutine; a dial that hangs is a goroutine that
  is not scheduled again.
\<close>

datatype main_pc = PcBootstrap | PcRange "multiaddr list" | PcWait | PcEnd

datatype boot_task = GConnect "AddrInfo option" | GAdd | GDone | GCrash | GFinished

datatype action = Main | Task nat

record 'w bstate =
  b_ctx :: ctx
  b_nodehost :: host
  b_kaddht :: dht
  pc :: main_pc
  wg :: nat
  connectedbootpeers :: "32 word"
  totalbootpeers :: "32 word"
  tasks :: "boot_task list"
  bproc :: "'w proc"
  result :: "unit outcome option"

definition bootstrapDHT_init :: "ctx \<Rightarrow> host \<Rightarrow> dht \<Rightarrow> 'w \<Rightarrow> 'w bstate" where
  "bootstrapDHT_init c nodehost kaddht w =
     \<lparr>b_ctx = c, b_nodehost = nodehost, b_kaddht = kaddht, pc = PcBootstrap, wg = 0,
      connectedbootpeers = 0, totalbootpeers = 0, tasks = [],
      bproc = \<lparr>world = w, trace = [], spawned = []\<rparr>, result = None\<rparr>"

text \<open>\<open>wg.Done()\<close>: the counter goes down by one; below zero the WaitGroup panics.\<close>
definition wg_Done :: "'w bstate \<Rightarrow> 'w bstate" where
  "wg_Done s =
     (if wg s = 0 then s\<lparr>result := Some (Panicked ''sync: negative WaitGroup counter'')\<rparr>
      else s\<lparr>wg := wg s - 1\<rparr>)"

definition main_step :: "'w lib \<Rightarrow> 'w bstate \<Rightarrow> 'w bstate option" where
  "main_step L s =
     (case pc s of
        PcBootstrap \<Rightarrow>
          (let (err, p1) = Bootstrap L (b_kaddht s) (b_ctx s) (bproc s)
           in case err of
                Some e \<Rightarrow>
                  (let (out, p2) = Fatalln [(''error'', e)] [LStr ''Failed to Bootstrap the Kademlia!''] p1
                   in Some (s\<lparr>bproc := p2, result := Some out\<rparr>))
              | None \<Rightarrow>
                  Some (s\<lparr>bproc := logrus Trace [LStr ''Set the Kademlia DHT into Bootstrap Mode.''] p1,
                          pc := PcRange (lib_DefaultBootstrapPeers L)\<rparr>))
      | PcRange [] \<Rightarrow> Some (s\<lparr>pc := PcWait\<rparr>)
      | PcRange (peeraddr # rest) \<Rightarrow>
          (let (peerinfo, err) = lib_AddrInfoFromP2pAddr L peeraddr
           in Some (s\<lparr>wg := wg s + 1,
                      totalbootpeers := totalbootpeers s + 1,
                      tasks := tasks s @ [GConnect peerinfo],
                      pc := PcRange rest\<rparr>))
      | PcWait \<Rightarrow>
          (if wg s = 0
           then Some (s\<lparr>bproc := logrus Debug [LStr ''Connected to %d out of %d Bootstrap Peers.'',
                                               LInt32 (connectedbootpeers s),
                                               LInt32 (totalbootpeers s)] (bproc s),
                         pc := PcEnd, result := Some (Returned ())\<rparr>)
           else None)
      | PcEnd \<Rightarrow> None)"

definition task_step :: "'w lib \<Rightarrow> nat \<Rightarrow> 'w bstate \<Rightarrow> 'w bstate option" where
  "task_step L i s =
     (if i \<ge> length (tasks s) then None
      else case tasks s ! i of
        GConnect None \<Rightarrow> Some (wg_Done (s\<lparr>tasks := (tasks s)[i := GCrash]\<rparr>))
      | GConnect (Some peerinfo) \<Rightarrow>
          (let (err, p1) = Connect L (b_nodehost s) (b_ctx s) peerinfo (bproc s)
           in Some (s\<lparr>bproc := p1,
                      tasks := (tasks s)[i := (if err = None then GAdd else GDone)]\<rparr>))
      | GAdd \<Rightarrow>
          Some (s\<lparr>connectedbootpeers := connectedbootpeers s + 1, tasks := (tasks s)[i := GDone]\<rparr>)
      | GDone \<Rightarrow> Some (wg_Done (s\<lparr>tasks := (tasks s)[i := GFinished]\<rparr>))
      | GCrash \<Rightarrow>
          Some (s\<lparr>result := Some (Panicked ''invalid memory address or nil pointer dereference'')\<rparr>)
      | GFinished \<Rightarrow> None)"

text \<open>
  The main goroutine runs while the function has not left; the others run while the
  process lives, also after the function has returned.
\<close>
definition step :: "'w lib \<Rightarrow> action \<Rightarrow> 'w bstate \<Rightarrow> 'w bstate option" where
  "step L a s =
     (case result s of
        Some (Exited n) \<Rightarrow> None
      | Some (Panicked msg) \<Rightarrow> None
      | Some (Returned u) \<Rightarrow> (case a of Main \<Rightarrow> None | Task i \<Rightarrow> task_step L i s)
      | None \<Rightarrow> (case a of Main \<Rightarrow> main_step L s | Task i \<Rightarrow> task_step L i s))"

fun exec :: "'w lib \<Rightarrow> action list \<Rightarrow> 'w bstate \<Rightarrow> 'w bstate option" where
  "exec L [] s = Some s"
| "exec L (a # as) s = (case step L a s of None \<Rightarrow> None | Some s' \<Rightarrow> exec L as s')"

text \<open>The connection attempts that have resolved, and those that succeeded.\<close>
fun succeeded :: "event list \<Rightarrow> nat" where
  "succeeded [] = 0"
| "succeeded (EvConnect h c pi None # es) = Suc (succeeded es)"
| "succeeded (e # es) = succeeded es"

definition attempted :: "event list \<Rightarrow> nat" where
  "attempted es = length (connect_calls es)"

text \<open>The actions a state can take.\<close>
definition enabled :: "'w lib \<Rightarrow> 'w bstate \<Rightarrow> action list" where
  "enabled L s = filter (\<lambda>a. step L a s \<noteq> None) (Main # map Task [0..<length (tasks s)])"

subsection \<open>Invariant and measure of the transition system\<close>

text \<open>
  A goroutine is undone while its deferred \<open>wg.Done()\<close> has not run, and resolved once its
  connect call has returned; it is well formed when its \<open>peerinfo\<close> is not nil.
\<close>
fun undone :: "boot_task \<Rightarrow> bool" where
  "undone (GConnect pi) = True"
| "undone GAdd = True"
| "undone GDone = True"
| "undone GCrash = False"
| "undone GFinished = False"

fun resolved :: "boot_task \<Rightarrow> bool" where
  "resolved (GConnect pi) = False"
| "resolved GAdd = True"
| "resolved GDone = True"
| "resolved GCrash = False"
| "resolved GFinished = True"

fun well_formed :: "boot_task \<Rightarrow> bool" where
  "well_formed (GConnect None) = False"
| "well_formed GCrash = False"
| "well_formed t = True"

definition count :: "('a \<Rightarrow> bool) \<Rightarrow> 'a list \<Rightarrow> nat" where
  "count P xs = length (filter P xs)"

fun pc_inv :: "'w lib \<Rightarrow> 'w bstate \<Rightarrow> bool" where
  "pc_inv L s =
     (case pc s of
        PcBootstrap \<Rightarrow> tasks s = [] \<and> result s \<noteq> Some (Returned ())
      | PcRange rest \<Rightarrow>
          length (tasks s) + length rest = length (lib_DefaultBootstrapPeers L)
          \<and> set rest \<subseteq> set (lib_DefaultBootstrapPeers L) \<and> result s = None
      | PcWait \<Rightarrow> length (tasks s) = length (lib_DefaultBootstrapPeers L) \<and> result s = None
      | PcEnd \<Rightarrow>
          length (tasks s) = length (lib_DefaultBootstrapPeers L) \<and> wg s = 0
          \<and> result s = Some (Returned ())
          \<and> trace (bproc s) \<noteq> []
          \<and> last (trace (bproc s)) =
               EvLog Debug [] [LStr ''Connected to %d out of %d Bootstrap Peers.'',
                               LInt32 (connectedbootpeers s), LInt32 (totalbootpeers s)])"

definition boot_inv :: "'w lib \<Rightarrow> 'w bstate \<Rightarrow> bool" where
  "boot_inv L s =
     (wg s = count undone (tasks s)
      \<and> totalbootpeers s = word_of_nat (length (tasks s))
      \<and> word_of_nat (succeeded (trace (bproc s)))
          = connectedbootpeers s + word_of_nat (count (\<lambda>t. t = GAdd) (tasks s))
      \<and> attempted (trace (bproc s)) = count resolved (tasks s)
      \<and> list_all well_formed (tasks s)
      \<and> pc_inv L s
      \<and> (case result s of Some (Panicked msg) \<Rightarrow> False | _ \<Rightarrow> True))"

text \<open>A measure that every step decreases: the steps left to the main goroutine and to the others.\<close>
fun task_weight :: "boot_task \<Rightarrow> nat" where
  "task_weight (GConnect pi) = 3"
| "task_weight GAdd = 2"
| "task_weight GDone = 1"
| "task_weight GCrash = 1"
| "task_weight GFinished = 0"

fun pc_weight :: "'w lib \<Rightarrow> main_pc \<Rightarrow> nat" where
  "pc_weight L PcBootstrap = 4 * length (lib_DefaultBootstrapPeers L) + 3"
| "pc_weight L (PcRange rest) = 4 * length rest + 2"
| "pc_weight L PcWait = 1"
| "pc_weight L PcEnd = 0"

definition boot_weight :: "'w lib \<Rightarrow> 'w bstate \<Rightarrow> nat" where
  "boot_weight L s =
     (case result s of
        Some (Exited n) \<Rightarrow> 0
      | Some (Panicked msg) \<Rightarrow> 0
      | _ \<Rightarrow> 1 + pc_weight L (pc s) + sum_list (map task_weight (tasks s)))"

text \<open>
  The errors that reach the log: an error among the values of a log call, or the
  \<open>error\<close> field of \<open>WithFields\<close>.
\<close>
fun logarg_errors :: "logarg list \<Rightarrow> error list" where
  "logarg_errors [] = []"
| "logarg_errors (LErr e # args) = e # logarg_errors args"
| "logarg_errors (a # args) = logarg_errors args"

fun logged_errors :: "event list \<Rightarrow> error list" where
  "logged_errors [] = []"
| "logged_errors (EvLog lvl flds args # es) =
     map snd (filter (\<lambda>kv. fst kv = ''error'') flds) @ logarg_errors args @ logged_errors es"
| "logged_errors (e # es) = logged_errors es"

section \<open>Example inputs\<close>

text \<open>
  A small network for the concrete instances of the theorems below: the local node is
  \<open>QmSelf\<close>, the peer \<open>QmA\<close> accepts connections and \<open>QmB\<close> refuses them, rendezvous
  advertising fails, and the world state counts the library calls made.
\<close>

definition ex_peerA :: AddrInfo where
  "ex_peerA = \<lparr>ID = ''QmA'', Addrs = [''/ip4/10.0.0.1/tcp/4001'']\<rparr>"

definition ex_peerB :: AddrInfo where
  "ex_peerB = \<lparr>ID = ''QmB'', Addrs = [''/ip4/10.0.0.2/tcp/4001'']\<rparr>"

definition ex_self :: AddrInfo where
  "ex_self = \<lparr>ID = ''QmSelf'', Addrs = [''/ip4/10.0.0.9/tcp/4001'']\<rparr>"

definition ex_host :: host where
  "ex_host = \<lparr>host_ID = ''QmSelf'', host_Addrs = [''/ip4/10.0.0.9/tcp/4001'']\<rparr>"

definition ex_chan :: peerchan where
  "ex_chan = [Send ex_peerB, Send ex_self, Send ex_peerA, Close, Send ex_peerA]"

definition ex_lib :: "nat lib" where
  "ex_lib =
     \<lparr>lib_Advertise = (\<lambda>d c ns w. ((0, Some ''advertise failed''), Suc w)),
      lib_FindPeers = (\<lambda>d c ns w. ((ex_chan, None), Suc w)),
      lib_Provide = (\<lambda>d c k b w. (None, Suc w)),
      lib_FindProvidersAsync = (\<lambda>d c k n w. ([Send ex_peerA, Send ex_self], Suc w)),
      lib_Bootstrap = (\<lambda>d c w. (None, Suc w)),
      lib_Connect = (\<lambda>h c pi w. (if ID pi = ''QmB'' then Some ''dial failed'' else None, Suc w)),
      lib_AddrInfoFromP2pAddr =
        (\<lambda>a. if a = ''/ip4/10.0.0.1/tcp/4001/p2p/QmA'' then (Some ex_peerA, None)
             else if a = ''/ip4/10.0.0.2/tcp/4001/p2p/QmB'' then (Some ex_peerB, None)
             else (None, Some ''invalid p2p multiaddr'')),
      lib_DefaultBootstrapPeers =
        [''/ip4/10.0.0.1/tcp/4001/p2p/QmA'', ''/ip4/10.0.0.2/tcp/4001/p2p/QmB'']\<rparr>"

definition ex_proc :: "nat proc" where
  "ex_proc = \<lparr>world = 0, trace = [], spawned = []\<rparr>"

definition ex_p2p :: P2P where
  "ex_p2p = \<lparr>Ctx = Scoped 1 False, Host = ex_host, KadDHT = IpfsDHT 1,
             Discovery = RoutingDiscovery 1, PubSub = PubSub_handle 1, service = ''icefiredb''\<rparr>"

text \<open>The same network with a bootstrap entry that has no \<open>/p2p\<close> part and does not parse.\<close>
definition ex_lib_malformed :: "nat lib" where
  "ex_lib_malformed = ex_lib\<lparr>lib_DefaultBootstrapPeers := [''/ip4/10.0.0.3/tcp/4001'']\<rparr>"

text \<open>The same network where FindPeers, Provide and the DHT's Bootstrap fail.\<close>
definition ex_lib_failing :: "nat lib" where
  "ex_lib_failing =
     ex_lib\<lparr>lib_FindPeers := (\<lambda>d c ns w. (([], Some ''no peers''), Suc w)),
            lib_Provide := (\<lambda>d c k b w. (Some ''provide failed'', Suc w)),
            lib_Bootstrap := (\<lambda>d c w. (Some ''bootstrap failed'', Suc w))\<rparr>"

lemmas ex_defs = ex_peerA_def ex_peerB_def ex_self_def ex_host_def ex_chan_def ex_lib_def
  ex_proc_def ex_p2p_def ex_lib_malformed_def ex_lib_failing_def

section \<open>Properties of handlePeerDiscovery\<close>

lemma connect_calls_append: "connect_calls (xs @ ys) = connect_calls xs @ connect_calls ys"
  by (induction xs rule: connect_calls.induct) simp_all

lemma trace_Connect:
  "trace (snd (Connect L h c pi s)) = trace s @ [EvConnect h c pi (fst (Connect L h c pi s))]"
  by (simp add: Connect_def emit_def split: prod.splits)

lemma trace_logrus [simp]: "trace (logrus lvl args s) = trace s @ [EvLog lvl [] args]"
  by (simp add: logrus_def emit_def)

lemma trace_emit [simp]: "trace (emit e s) = trace s @ [e]"
  by (simp add: emit_def)

text \<open>
  One pass of the loop body for a peer that is not the host itself: the connect call with
  the background context, then only log lines.
\<close>
lemma handlePeerDiscovery_grows:
  "\<exists>evs. trace (snd (handlePeerDiscovery L h ch s)) = trace s @ evs \<and>
         connect_calls evs = map (Pair Background) (filter (\<lambda>p. ID p \<noteq> host_ID h) (received ch))"
proof (induction L h ch s rule: handlePeerDiscovery.induct)
  case (1 L nodehost s)
  then show ?case by simp
next
  case (2 L nodehost rest s)
  then show ?case by simp
next
  case (3 L nodehost peer rest s)
  show ?case
  proof (cases "ID peer = host_ID nodehost")
    case True
    with 3(1) show ?thesis by simp
  next
    case False
    obtain err s1 where c: "Connect L nodehost Background peer s = (err, s1)"
      by (cases "Connect L nodehost Background peer s")
    define s2 where "s2 = (case err of
        Some e \<Rightarrow> logrus Debug [LStr ''p2p peer connection failed: '', LErr e] s1
      | None \<Rightarrow> s1)"
    define s3 where "s3 = logrus Debug [LStr ''p2p peer connection success: '', LPeer (ID peer)] s2"
    define s4 where
      "s4 = emit (EvLog Println [] [LStr ''p2p peer connection success: '', LPeer (ID peer)]) s3"
    have t1: "trace s1 = trace s @ [EvConnect nodehost Background peer err]"
      using trace_Connect [of L nodehost Background peer s] c by simp
    have t2: "\<exists>logs. trace s2 = trace s1 @ logs \<and> connect_calls logs = []"
      by (cases err) (simp_all add: s2_def)
    then obtain logs where l: "trace s2 = trace s1 @ logs" "connect_calls logs = []" by blast
    have t4: "trace s4 = trace s @ (EvConnect nodehost Background peer err # logs
        @ [EvLog Debug [] [LStr ''p2p peer connection success: '', LPeer (ID peer)],
           EvLog Println [] [LStr ''p2p peer connection success: '', LPeer (ID peer)]])"
      by (simp add: s4_def s3_def l t1)
    from 3(2) [OF False c [symmetric] refl s2_def s3_def s4_def]
    obtain evs where e: "trace (snd (handlePeerDiscovery L nodehost rest s4)) = trace s4 @ evs"
      "connect_calls evs
         = map (Pair Background) (filter (\<lambda>p. ID p \<noteq> host_ID nodehost) (received rest))"
      by blast
    have run: "handlePeerDiscovery L nodehost (Send peer # rest) s
        = handlePeerDiscovery L nodehost rest s4"
      using False c by (simp add: s2_def s3_def s4_def Let_def)
    show ?thesis
      unfolding run
      using e l(2) False by (simp add: t4 connect_calls_append)
  qed
qed

lemma handlePeerDiscovery_connects:
  "connect_calls (since s (snd (handlePeerDiscovery L h ch s)))
     = map (Pair Background) (filter (\<lambda>p. ID p \<noteq> host_ID h) (received ch))"
  using handlePeerDiscovery_grows [of L h ch s] by (auto simp: since_def)

lemma handlePeerDiscovery_status:
  "fst (handlePeerDiscovery L h ch s) = (if Close \<in> set ch then Finished else Blocked)"
proof (induction L h ch s rule: handlePeerDiscovery.induct)
  case (3 L nodehost peer rest s)
  then show ?case by (cases "ID peer = host_ID nodehost") (auto simp: Let_def split: prod.splits)
qed simp_all

lemma handlePeerDiscovery_after_Close:
  "handlePeerDiscovery L h (ch @ Close # later) s = handlePeerDiscovery L h (ch @ [Close]) s"
proof (induction L h ch s rule: handlePeerDiscovery.induct)
  case (3 L nodehost peer rest s)
  then show ?case by (cases "ID peer = host_ID nodehost") (auto simp: Let_def split: prod.splits)
qed simp_all

theorem handlePeerDiscovery_never_self:
  "\<forall>(c, p) \<in> set (connect_calls (since s (snd (handlePeerDiscovery L nodehost peerchan s)))).
     ID p \<noteq> host_ID nodehost"
  by (auto simp: handlePeerDiscovery_connects)

theorem handlePeerDiscovery_never_self_witness:
  "(Background, ex_self) \<notin> set (connect_calls (since ex_proc
       (snd (handlePeerDiscovery ex_lib ex_host ex_chan ex_proc))))
   \<and> Send ex_self \<in> set ex_chan \<and> ID ex_self = host_ID ex_host"
proof -
  have "ID ex_self = host_ID ex_host" by (simp add: ex_self_def ex_host_def)
  moreover have "Send ex_self \<in> set ex_chan" by (simp add: ex_chan_def)
  ultimately show ?thesis
    using handlePeerDiscovery_never_self [of ex_proc ex_lib ex_host ex_chan] by blast
qed

theorem handlePeerDiscovery_consumes_until_close:
  "connect_calls (since s (snd (handlePeerDiscovery L nodehost peerchan s)))
     = map (Pair Background) (filter (\<lambda>p. ID p \<noteq> host_ID nodehost) (received peerchan))
   \<and> (fst (handlePeerDiscovery L nodehost peerchan s) = Finished \<longleftrightarrow> Close \<in> set peerchan)
   \<and> handlePeerDiscovery L nodehost (peerchan @ Close # later) s
       = handlePeerDiscovery L nodehost (peerchan @ [Close]) s"
  using handlePeerDiscovery_after_Close [of L nodehost peerchan later s]
  by (simp add: handlePeerDiscovery_connects handlePeerDiscovery_status)

theorem handlePeerDiscovery_consumes_until_close_witness:
  "connect_calls (since ex_proc (snd (handlePeerDiscovery ex_lib ex_host ex_chan ex_proc)))
     = [(Background, ex_peerB), (Background, ex_peerA)]
   \<and> fst (handlePeerDiscovery ex_lib ex_host ex_chan ex_proc) = Finished
   \<and> fst (lib_Connect ex_lib ex_host Background ex_peerB 0) = Some ''dial failed''"
proof -
  from handlePeerDiscovery_consumes_until_close [of ex_proc ex_lib ex_host ex_chan "[]"]
  have c: "connect_calls (since ex_proc (snd (handlePeerDiscovery ex_lib ex_host ex_chan ex_proc)))
      = map (Pair Background) (filter (\<lambda>p. ID p \<noteq> host_ID ex_host) (received ex_chan))"
    and f: "fst (handlePeerDiscovery ex_lib ex_host ex_chan ex_proc) = Finished
      \<longleftrightarrow> Close \<in> set ex_chan"
    by blast+
  have "map (Pair Background) (filter (\<lambda>p. ID p \<noteq> host_ID ex_host) (received ex_chan))
      = [(Background, ex_peerB), (Background, ex_peerA)]"
    by (simp add: ex_chan_def ex_peerA_def ex_peerB_def ex_self_def ex_host_def)
  moreover have "Close \<in> set ex_chan" by (simp add: ex_chan_def)
  moreover have "fst (lib_Connect ex_lib ex_host Background ex_peerB 0) = Some ''dial failed''"
    by (simp add: ex_lib_def ex_peerB_def)
  ultimately show ?thesis using c f by simp
qed

section \<open>Properties of generateCID\<close>

declare digits.simps [simp del]

lemma digits_0 [simp]: "digits b 0 = []"
  by (simp add: digits.simps)

lemma digits_step: "n \<noteq> 0 \<Longrightarrow> 2 \<le> b \<Longrightarrow> digits b n = digits b (n div b) @ [n mod b]"
  by (subst digits.simps) simp

lemma from_digits_Nil [simp]: "from_digits b [] = 0"
  by (simp add: from_digits_def)

lemma from_digits_snoc [simp]: "from_digits b (ds @ [d]) = b * from_digits b ds + d"
  by (simp add: from_digits_def)

lemma from_digits_digits: "2 \<le> b \<Longrightarrow> from_digits b (digits b n) = n"
proof (induction b n rule: digits.induct)
  case (1 b n)
  show ?case
  proof (cases "n = 0")
    case True
    then show ?thesis by simp
  next
    case False
    with 1 have "from_digits b (digits b (n div b)) = n div b" by simp
    with False 1(2) show ?thesis by (simp add: digits_step)
  qed
qed

lemma digits_lt: "2 \<le> b \<Longrightarrow> d \<in> set (digits b n) \<Longrightarrow> d < b"
proof (induction b n rule: digits.induct)
  case (1 b n)
  show ?case
  proof (cases "n = 0")
    case True
    with 1(3) show ?thesis by simp
  next
    case False
    with 1 show ?thesis by (auto simp: digits_step)
  qed
qed

lemma digits_eq_Nil: "2 \<le> b \<Longrightarrow> digits b n = [] \<longleftrightarrow> n = 0"
  by (cases "n = 0") (simp_all add: digits_step)

lemma digits_hd: "2 \<le> b \<Longrightarrow> n \<noteq> 0 \<Longrightarrow> hd (digits b n) \<noteq> 0"
proof (induction b n rule: digits.induct)
  case (1 b n)
  show ?case
  proof (cases "n div b = 0")
    case True
    with 1(2,3) have "digits b n = [n mod b]" by (simp add: digits_step)
    moreover from True 1(2,3) have "n mod b = n"
      by (metis div_mult_mod_eq add_0 mult_zero_right mult_zero_left)
    ultimately show ?thesis using 1(3) by simp
  next
    case False
    with 1 have "hd (digits b (n div b)) \<noteq> 0" by simp
    moreover from False 1(2) have "digits b (n div b) \<noteq> []" by (simp add: digits_eq_Nil)
    ultimately show ?thesis using 1(2,3) by (simp add: digits_step)
  qed
qed

lemma from_digits_zeros [simp]: "from_digits b (replicate z 0 @ ds) = from_digits b ds"
proof -
  have "foldl (\<lambda>a d. b * a + d) 0 (replicate z 0) = 0"
    by (induction z) simp_all
  then show ?thesis by (simp add: from_digits_def)
qed

lemma from_digits_eq_0: "2 \<le> b \<Longrightarrow> from_digits b ds = 0 \<longleftrightarrow> (\<forall>d \<in> set ds. d = 0)"
  by (induction ds rule: rev_induct) auto

lemma digits_from_digits:
  "2 \<le> b \<Longrightarrow> \<forall>d \<in> set ds. d < b \<Longrightarrow> digits b (from_digits b ds) = dropWhile (\<lambda>d. d = 0) ds"
proof (induction ds rule: rev_induct)
  case Nil
  then show ?case by simp
next
  case (snoc d ds)
  let ?v = "from_digits b ds"
  from snoc have IH: "digits b ?v = dropWhile (\<lambda>d. d = 0) ds" and d: "d < b" by simp_all
  show ?case
  proof (cases "b * ?v + d = 0")
    case True
    with snoc(2) have "?v = 0" "d = 0" by auto
    with snoc(2) have "\<forall>x \<in> set (ds @ [d]). x = 0" by (simp add: from_digits_eq_0)
    then have dw: "dropWhile (\<lambda>d. d = 0) (ds @ [d]) = []" by (simp add: dropWhile_eq_Nil_conv)
    have "from_digits b (ds @ [d]) = 0" using True by simp
    with dw show ?thesis by (simp only: digits_0)
  next
    case False
    have dv: "(b * ?v + d) div b = ?v" and md: "(b * ?v + d) mod b = d"
      using d by simp_all
    have "digits b (b * ?v + d) = digits b ?v @ [d]"
      using digits_step [OF False snoc(2)] by (simp only: dv md)
    also have "\<dots> = dropWhile (\<lambda>d. d = 0) ds @ [d]" by (simp add: IH)
    also have "\<dots> = dropWhile (\<lambda>d. d = 0) (ds @ [d])"
    proof (cases "?v = 0")
      case True
      with snoc(2) have z: "\<forall>x \<in> set ds. x = 0" by (simp add: from_digits_eq_0)
      from True False have "d \<noteq> 0" by simp
      with z show ?thesis by (simp add: dropWhile_append2 dropWhile_eq_Nil_conv)
    next
      case False
      with snoc(2) obtain x where "x \<in> set ds" "x \<noteq> 0" by (auto simp: from_digits_eq_0)
      then show ?thesis by (simp add: dropWhile_append1)
    qed
    finally show ?thesis by simp
  qed
qed




lemma b58Alphabet_length: "length b58Alphabet = 58"
  by (simp add: b58Alphabet_def)

lemma b58_digit_table: "map b58_digit b58Alphabet = map Inr [0..<58]"
  by code_simp

lemma b58_digit_alphabet: "d < 58 \<Longrightarrow> b58_digit (b58Alphabet ! d) = Inr d"
proof -
  assume d: "d < 58"
  then have "b58_digit (b58Alphabet ! d) = map b58_digit b58Alphabet ! d"
    by (simp add: b58Alphabet_length)
  also have "\<dots> = Inr d" using d by (simp only: b58_digit_table) simp
  finally show ?thesis .
qed

lemma b58_digits_alphabet:
  "\<forall>d \<in> set ds. d < 58 \<Longrightarrow> b58_digits (map (\<lambda>d. b58Alphabet ! d) ds) = Inr ds"
  by (induction ds) (simp_all add: b58_digit_alphabet)

lemma alphabet_nonzero: "d < 58 \<Longrightarrow> d \<noteq> 0 \<Longrightarrow> b58Alphabet ! d \<noteq> b58Alphabet ! 0"
proof
  assume d: "d < 58" "d \<noteq> 0" and eq: "b58Alphabet ! d = b58Alphabet ! 0"
  have "b58_digit (b58Alphabet ! d) = Inr d" using d by (simp add: b58_digit_alphabet)
  moreover have "b58_digit (b58Alphabet ! 0) = Inr 0" by (simp add: b58_digit_alphabet)
  ultimately show False using d eq by simp
qed

lemma zcount_replicate:
  "xs = [] \<or> hd xs \<noteq> z \<Longrightarrow> zcount z (replicate n z @ xs) = n"
  by (induction n) (auto simp: zcount_def takeWhile_eq_Nil_iff)

lemma zcount_split: "replicate (zcount z xs) z @ dropWhile (\<lambda>x. x = z) xs = xs"
proof -
  have "takeWhile (\<lambda>x. x = z) xs = replicate (zcount z xs) z"
    unfolding zcount_def
    by (metis (mono_tags, lifting) replicate_length_same set_takeWhileD)
  then show ?thesis by (metis takeWhile_dropWhile_id)
qed

lemma bytes_roundtrip:
  "map word_of_nat (digits 256 (from_digits 256 (map unat bin))) = dropWhile (\<lambda>b. b = 0) (bin :: byte list)"
proof -
  have lt: "\<forall>d \<in> set (map unat bin). d < 256"
  proof
    fix d assume "d \<in> set (map unat bin)"
    then obtain b :: byte where "d = unat b" by auto
    then show "d < 256" using unsigned_less [of b] by simp
  qed
  have "digits 256 (from_digits 256 (map unat bin)) = dropWhile (\<lambda>d. d = 0) (map unat bin)"
    using lt by (simp add: digits_from_digits)
  also have "\<dots> = map unat (dropWhile (\<lambda>b. b = 0) bin)"
    by (simp add: dropWhile_map comp_def unat_eq_0)
  finally show ?thesis by (simp add: comp_def)
qed

lemma Decode_Encode: "bin \<noteq> [] \<Longrightarrow> Decode (Encode bin) = Inr bin"
proof -
  assume ne: "bin \<noteq> []"
  let ?n = "from_digits 256 (map unat bin)"
  let ?ds = "digits 58 ?n"
  let ?z = "zcount 0 bin"
  have lt: "\<forall>d \<in> set ?ds. d < 58" by (auto dest: digits_lt [rotated])
  have enc: "Encode bin = map (\<lambda>d. b58Alphabet ! d) (replicate ?z 0 @ ?ds)"
    by (simp add: Encode_def)
  have dig: "b58_digits (Encode bin) = Inr (replicate ?z 0 @ ?ds)"
    unfolding enc using lt by (intro b58_digits_alphabet) auto
  have hd: "map (\<lambda>d. b58Alphabet ! d) ?ds = [] \<or> hd (map (\<lambda>d. b58Alphabet ! d) ?ds) \<noteq> b58Alphabet ! 0"
  proof (cases "?n = 0")
    case True
    then show ?thesis by simp
  next
    case False
    then have ne': "?ds \<noteq> []" by (simp add: digits_eq_Nil)
    have "hd ?ds \<noteq> 0" using False by (simp add: digits_hd)
    moreover have "hd ?ds < 58" using lt ne' by simp
    ultimately show ?thesis using ne' by (simp add: hd_map alphabet_nonzero)
  qed
  have zp: "zcount (b58Alphabet ! 0) (Encode bin) = ?z"
    unfolding Encode_def using hd by (rule zcount_replicate)
  have nonempty: "Encode bin \<noteq> []"
  proof (cases "?n = 0")
    case True
    then have "\<forall>d \<in> set (map unat bin). d = 0" by (simp add: from_digits_eq_0)
    then have "hd bin = 0" using ne by (cases bin) (simp_all add: unat_eq_0)
    then have "?z \<noteq> 0" using ne by (cases bin) (simp_all add: zcount_def)
    then show ?thesis by (simp add: Encode_def)
  next
    case False
    then show ?thesis by (simp add: Encode_def digits_eq_Nil)
  qed
  have "Decode (Encode bin) = Inr (replicate ?z 0 @ map word_of_nat (digits 256 ?n))"
    by (simp add: Decode_def nonempty dig zp from_digits_digits)
  also have "\<dots> = Inr bin"
    by (simp only: bytes_roundtrip zcount_split)
  finally show ?thesis .
qed

lemma Cast_sha256_multihash:
  "length d = 32 \<Longrightarrow> Cast (0x12 # 0x20 # d) = Inr (0x12 # 0x20 # d)"
  by (simp add: Cast_def mh_Decode_def readMultihashFromBuf_def uvarint_def)

lemma FromB58String_Encode:
  "length d = 32 \<Longrightarrow> FromB58String (Encode (0x12 # 0x20 # d)) = Inr (0x12 # 0x20 # d)"
  by (simp add: FromB58String_def Decode_Encode Cast_sha256_multihash)


lemma digest_bytes_length: "length (digest_bytes v) = 32"
  by (induction v rule: digest_bytes.induct) (simp add: bytes_be32_def)

lemma Sum256_length: "length (Sum256 msg) = 32"
  by (simp add: Sum256_def digest_bytes_length)

text \<open>Known answers: the digest of \<open>abc\<close> from FIPS 180-4, and a base58 encoding.\<close>
lemma Sum256_abc:
  "Sum256 (bytes_of_string ''abc'') =
     [0xba, 0x78, 0x16, 0xbf, 0x8f, 0x01, 0xcf, 0xea, 0x41, 0x41, 0x40, 0xde, 0x5d, 0xae, 0x22, 0x23,
      0xb0, 0x03, 0x61, 0xa3, 0x96, 0x17, 0x7a, 0x9c, 0xb4, 0x10, 0xff, 0x61, 0xf2, 0x00, 0x15, 0xad]"
  by code_simp

lemma Encode_hello: "Encode (bytes_of_string ''Hello World!'') = ''2NEpo7TZRRrLZSi2U''"
  by (simp add: Encode_def bytes_of_string_def zcount_def from_digits_def b58Alphabet_def digits.simps)

text \<open>
  C10. The error branch of generateCID is never taken: for every name the 34 tagged bytes
  survive the round trip through base58.Encode and multihash.FromB58String unchanged, so
  the function returns a CID and never ends the process.
\<close>
theorem generateCID_total:
  "length ([0x12, 0x20] @ Sum256 (bytes_of_string namestring)) = 34
   \<and> Decode (Encode ([0x12, 0x20] @ Sum256 (bytes_of_string namestring)))
       = Inr ([0x12, 0x20] @ Sum256 (bytes_of_string namestring))
   \<and> FromB58String (Encode ([0x12, 0x20] @ Sum256 (bytes_of_string namestring)))
       = Inr ([0x12, 0x20] @ Sum256 (bytes_of_string namestring))
   \<and> (\<exists>cidvalue. generateCID namestring s = (Returned cidvalue, s))"
  by (simp add: generateCID_def Sum256_length Decode_Encode FromB58String_Encode)

text \<open>
  C1. generateCID is a function of the service name alone and does no I/O: for every
  name and every process state it returns, leaving the state as it was, the version-1
  identifier whose multihash is 0x12, 0x20 and the 32 bytes of the SHA-256 digest of the
  name.
\<close>
theorem generateCID_deterministic:
  "generateCID namestring s =
     (Returned \<lparr>cid_version = 1, cid_codec = 12,
                cid_hash = [0x12, 0x20] @ Sum256 (bytes_of_string namestring)\<rparr>, s)
   \<and> length (Sum256 (bytes_of_string namestring)) = 32
   \<and> fst (generateCID namestring s) = fst (generateCID namestring s')"
  by (simp add: generateCID_def Sum256_length FromB58String_Encode NewCidV1_def)

section \<open>Properties of AdvertiseConnect and AnnounceConnect\<close>

lemma generateCID_Returned:
  "generateCID namestring s
     = (Returned (NewCidV1 12 ([0x12, 0x20] @ Sum256 (bytes_of_string namestring))), s)"
  by (simp add: generateCID_def Sum256_length FromB58String_Encode)

text \<open>
  C9. Neither AdvertiseConnect nor AnnounceConnect writes to the P2P structure: whatever
  the library does and however the call leaves, the six fields are as before.
\<close>
theorem connect_methods_keep_P2P:
  "fst (snd (AdvertiseConnect L p2p s)) = p2p \<and> fst (snd (AnnounceConnect L p2p s)) = p2p"
  by (simp add: AdvertiseConnect_def AnnounceConnect_def generateCID_Returned Fatalln_def Let_def
      split: prod.splits option.splits)


lemma AdvertiseConnect_run:
  assumes "lib_Advertise L (Discovery p2p) (Ctx p2p) (service p2p) (world s) = ((ttl, err), w1)"
    and "lib_FindPeers L (Discovery p2p) (Ctx p2p) (service p2p) w1 = ((ch, err'), w2)"
  shows "AdvertiseConnect L p2p s =
    (case err' of
       Some e \<Rightarrow>
         (Exited 1, p2p,
          s\<lparr>world := w2,
            trace := trace s @
              [EvAdvertise (Discovery p2p) (Ctx p2p) (service p2p) ttl err,
               EvLog Debug [] [LStr ''Advertised the p2p Service.''],
               EvSleep 5,
               EvLog Debug [] [LStr ''Service Time-to-Live is %s'', LDuration ttl],
               EvFindPeers (Discovery p2p) (Ctx p2p) (service p2p) (Some e),
               EvLog Fatal [(''error'', e)] [LStr ''P2P Peer Discovery Failed!'']]\<rparr>)
     | None \<Rightarrow>
         (Returned (), p2p,
          s\<lparr>world := w2,
            trace := trace s @
              [EvAdvertise (Discovery p2p) (Ctx p2p) (service p2p) ttl err,
               EvLog Debug [] [LStr ''Advertised the p2p Service.''],
               EvSleep 5,
               EvLog Debug [] [LStr ''Service Time-to-Live is %s'', LDuration ttl],
               EvFindPeers (Discovery p2p) (Ctx p2p) (service p2p) None,
               EvLog Trace [] [LStr ''Discovered p2p Service Peers.''],
               EvGo (Go_handlePeerDiscovery (Host p2p) ch),
               EvLog Trace [] [LStr ''Started Peer Connection Handler.'']],
            spawned := spawned s @ [Go_handlePeerDiscovery (Host p2p) ch]\<rparr>))"
  using assms
  by (cases err')
     (simp_all add: AdvertiseConnect_def Advertise_def FindPeers_def Fatalln_def logrus_def
        logrus_WithFields_def time_Sleep_def go_def emit_def)

lemma AnnounceConnect_run:
  assumes "k = NewCidV1 12 ([0x12, 0x20] @ Sum256 (bytes_of_string (service p2p)))"
    and "lib_Provide L (KadDHT p2p) (Ctx p2p) k True (world s) = (err, w1)"
    and "lib_FindProvidersAsync L (KadDHT p2p) (Ctx p2p) k 0 w1 = (ch, w2)"
  shows "AnnounceConnect L p2p s =
    (case err of
       Some e \<Rightarrow>
         (Exited 1, p2p,
          s\<lparr>world := w1,
            trace := trace s @
              [EvLog Debug [] [LStr ''cidvalue '', LCid k],
               EvLog Trace [] [LStr ''Generated the Service CID.''],
               EvProvide (KadDHT p2p) (Ctx p2p) k True (Some e),
               EvLog Fatal [(''error'', e)] [LStr ''Failed to Announce Service CID!'']]\<rparr>)
     | None \<Rightarrow>
         (Returned (), p2p,
          s\<lparr>world := w2,
            trace := trace s @
              [EvLog Debug [] [LStr ''cidvalue '', LCid k],
               EvLog Trace [] [LStr ''Generated the Service CID.''],
               EvProvide (KadDHT p2p) (Ctx p2p) k True None,
               EvLog Debug [] [LStr ''Announced the p2p Service.''],
               EvSleep 5,
               EvFindProvidersAsync (KadDHT p2p) (Ctx p2p) k 0,
               EvLog Trace [] [LStr ''Discovered p2p Service Peers.''],
               EvGo (Go_handlePeerDiscovery (Host p2p) ch),
               EvLog Debug [] [LStr ''Started Peer Connection Handler.'']],
            spawned := spawned s @ [Go_handlePeerDiscovery (Host p2p) ch]\<rparr>))"
  using assms(2,3) unfolding assms(1)
  by (cases err)
     (simp_all add: AnnounceConnect_def generateCID_Returned Provide_def FindProvidersAsync_def
        Fatalln_def logrus_def logrus_WithFields_def time_Sleep_def go_def emit_def)

lemma since_trace: "trace s' = trace s @ evs \<Longrightarrow> since s s' = evs"
  by (simp add: since_def)

lemma AdvertiseConnect_connects:
  assumes "lib_Advertise L (Discovery p2p) (Ctx p2p) (service p2p) (world s) = ((ttl, err), w1)"
    and "lib_FindPeers L (Discovery p2p) (Ctx p2p) (service p2p) w1 = ((ch, err'), w2)"
  shows "connect_calls (since s (with_handlers L s (AdvertiseConnect L p2p s))) =
    (case err' of
       Some e \<Rightarrow> []
     | None \<Rightarrow> map (Pair Background) (filter (\<lambda>p. ID p \<noteq> host_ID (Host p2p)) (received ch)))"
proof (cases err')
  case (Some e)
  then show ?thesis
    unfolding AdvertiseConnect_run [OF assms] by (simp add: with_handlers_def since_def)
next
  case None
  define s' where "s' = snd (snd (AdvertiseConnect L p2p s))"
  have r: "AdvertiseConnect L p2p s = (Returned (), p2p, s')"
    unfolding s'_def AdvertiseConnect_run [OF assms] using None by simp
  have sp: "spawned s' = spawned s @ [Go_handlePeerDiscovery (Host p2p) ch]"
    unfolding s'_def AdvertiseConnect_run [OF assms] using None by simp
  obtain evs1 where t: "trace s' = trace s @ evs1" "connect_calls evs1 = []"
    unfolding s'_def AdvertiseConnect_run [OF assms] using None by simp
  obtain evs2 where h: "trace (snd (handlePeerDiscovery L (Host p2p) ch s')) = trace s' @ evs2"
    "connect_calls evs2
       = map (Pair Background) (filter (\<lambda>p. ID p \<noteq> host_ID (Host p2p)) (received ch))"
    using handlePeerDiscovery_grows [of L "Host p2p" ch s'] by blast
  have "with_handlers L s (AdvertiseConnect L p2p s) = snd (handlePeerDiscovery L (Host p2p) ch s')"
    by (simp add: r with_handlers_def sp)
  then have "since s (with_handlers L s (AdvertiseConnect L p2p s)) = evs1 @ evs2"
    using t h by (simp add: since_def)
  then show ?thesis using t h None by (simp add: connect_calls_append)
qed

lemma AnnounceConnect_connects:
  assumes "k = NewCidV1 12 ([0x12, 0x20] @ Sum256 (bytes_of_string (service p2p)))"
    and "lib_Provide L (KadDHT p2p) (Ctx p2p) k True (world s) = (err, w1)"
    and "lib_FindProvidersAsync L (KadDHT p2p) (Ctx p2p) k 0 w1 = (ch, w2)"
  shows "connect_calls (since s (with_handlers L s (AnnounceConnect L p2p s))) =
    (case err of
       Some e \<Rightarrow> []
     | None \<Rightarrow> map (Pair Background) (filter (\<lambda>p. ID p \<noteq> host_ID (Host p2p)) (received ch)))"
proof (cases err)
  case (Some e)
  then show ?thesis
    unfolding AnnounceConnect_run [OF assms] by (simp add: with_handlers_def since_def)
next
  case None
  define s' where "s' = snd (snd (AnnounceConnect L p2p s))"
  have r: "AnnounceConnect L p2p s = (Returned (), p2p, s')"
    unfolding s'_def AnnounceConnect_run [OF assms] using None by simp
  have sp: "spawned s' = spawned s @ [Go_handlePeerDiscovery (Host p2p) ch]"
    unfolding s'_def AnnounceConnect_run [OF assms] using None by simp
  obtain evs1 where t: "trace s' = trace s @ evs1" "connect_calls evs1 = []"
    unfolding s'_def AnnounceConnect_run [OF assms] using None by simp
  obtain evs2 where h: "trace (snd (handlePeerDiscovery L (Host p2p) ch s')) = trace s' @ evs2"
    "connect_calls evs2
       = map (Pair Background) (filter (\<lambda>p. ID p \<noteq> host_ID (Host p2p)) (received ch))"
    using handlePeerDiscovery_grows [of L "Host p2p" ch s'] by blast
  have "with_handlers L s (AnnounceConnect L p2p s) = snd (handlePeerDiscovery L (Host p2p) ch s')"
    by (simp add: r with_handlers_def sp)
  then have "since s (with_handlers L s (AnnounceConnect L p2p s)) = evs1 @ evs2"
    using t h by (simp add: since_def)
  then show ?thesis using t h None by (simp add: connect_calls_append)
qed

lemma AdvertiseConnect_ctxs:
  "set (map fst (connect_calls (since s (with_handlers L s (AdvertiseConnect L p2p s)))))
     \<subseteq> {Background}"
proof -
  obtain ttl err w1 where a: "lib_Advertise L (Discovery p2p) (Ctx p2p) (service p2p) (world s)
      = ((ttl, err), w1)"
    by (metis surj_pair)
  obtain ch err' w2 where f: "lib_FindPeers L (Discovery p2p) (Ctx p2p) (service p2p) w1
      = ((ch, err'), w2)"
    by (metis surj_pair)
  show ?thesis
    unfolding AdvertiseConnect_connects [OF a f] by (cases err') auto
qed

lemma AnnounceConnect_ctxs:
  "set (map fst (connect_calls (since s (with_handlers L s (AnnounceConnect L p2p s)))))
     \<subseteq> {Background}"
proof -
  define k where "k = NewCidV1 12 ([0x12, 0x20] @ Sum256 (bytes_of_string (service p2p)))"
  obtain err w1 where a: "lib_Provide L (KadDHT p2p) (Ctx p2p) k True (world s) = (err, w1)"
    by (metis surj_pair)
  obtain ch w2 where f: "lib_FindProvidersAsync L (KadDHT p2p) (Ctx p2p) k 0 w1 = (ch, w2)"
    by (metis surj_pair)
  show ?thesis
    unfolding AnnounceConnect_connects [OF k_def a f] by (cases err) auto
qed

text \<open>
  C8. Every connect call to a discovered peer is made with the background context, never
  with the node's: take any node and the same node with another root context (say, the
  cancelled one); in both runs of either discovery method, handler included, the context
  of every connect call is \<open>Background\<close>.
\<close>
theorem discovered_peers_dialled_with_Background:
  "set (map fst (connect_calls (since s (snd (handlePeerDiscovery L nodehost peerchan s)))))
     \<subseteq> {Background}
   \<and> set (map fst (connect_calls (since s (with_handlers L s (AdvertiseConnect L p2p s)))))
     \<subseteq> {Background}
   \<and> set (map fst (connect_calls (since s
        (with_handlers L s (AdvertiseConnect L (p2p\<lparr>Ctx := c'\<rparr>) s))))) \<subseteq> {Background}
   \<and> set (map fst (connect_calls (since s (with_handlers L s (AnnounceConnect L p2p s)))))
     \<subseteq> {Background}
   \<and> set (map fst (connect_calls (since s
        (with_handlers L s (AnnounceConnect L (p2p\<lparr>Ctx := c'\<rparr>) s))))) \<subseteq> {Background}"
proof -
  have "set (map fst (connect_calls (since s (snd (handlePeerDiscovery L nodehost peerchan s)))))
     \<subseteq> {Background}"
    by (auto simp: handlePeerDiscovery_connects)
  then show ?thesis
    using AdvertiseConnect_ctxs [of s L p2p] AdvertiseConnect_ctxs [of s L "p2p\<lparr>Ctx := c'\<rparr>"]
      AnnounceConnect_ctxs [of s L p2p] AnnounceConnect_ctxs [of s L "p2p\<lparr>Ctx := c'\<rparr>"]
    by blast
qed

theorem discovered_peers_dialled_with_Background_witness:
  "Scoped 1 True \<notin> set (map fst (connect_calls (since ex_proc
       (with_handlers ex_lib ex_proc (AdvertiseConnect ex_lib (ex_p2p\<lparr>Ctx := Scoped 1 True\<rparr>) ex_proc)))))
   \<and> Scoped 1 False \<notin> set (map fst (connect_calls (since ex_proc
       (with_handlers ex_lib ex_proc (AnnounceConnect ex_lib ex_p2p ex_proc)))))
   \<and> Ctx ex_p2p = Scoped 1 False"
  using discovered_peers_dialled_with_Background
    [of ex_proc ex_lib ex_host ex_chan ex_p2p "Scoped 1 True"]
  by (auto simp: ex_p2p_def)

text \<open>
  C7 fails on the code. The claim has the failure of Advertise logged and not escalated;
  the code does not escalate it, but it does not log it either: the \<open>err\<close> Advertise
  returns is assigned and never read, and FindPeers' result overwrites it. In the example
  network Advertise returns the error \<open>advertise failed\<close>; these are all the events of the
  run: the line \<open>Advertised the p2p Service.\<close> is written all the same, and no log entry
  carries an error.
\<close>
theorem advertise_failure_not_logged:
  "fst (lib_Advertise ex_lib (Discovery ex_p2p) (Ctx ex_p2p) (service ex_p2p) (world ex_proc))
     = (0, Some ''advertise failed'')
   \<and> since ex_proc (snd (snd (AdvertiseConnect ex_lib ex_p2p ex_proc)))
       = [EvAdvertise (RoutingDiscovery 1) (Scoped 1 False) ''icefiredb'' 0
            (Some ''advertise failed''),
          EvLog Debug [] [LStr ''Advertised the p2p Service.''],
          EvSleep 5,
          EvLog Debug [] [LStr ''Service Time-to-Live is %s'', LDuration 0],
          EvFindPeers (RoutingDiscovery 1) (Scoped 1 False) ''icefiredb'' None,
          EvLog Trace [] [LStr ''Discovered p2p Service Peers.''],
          EvGo (Go_handlePeerDiscovery ex_host ex_chan),
          EvLog Trace [] [LStr ''Started Peer Connection Handler.'']]
   \<and> logged_errors (since ex_proc (snd (snd (AdvertiseConnect ex_lib ex_p2p ex_proc)))) = []
   \<and> fst (AdvertiseConnect ex_lib ex_p2p ex_proc) = Returned ()"
proof -
  have a: "lib_Advertise ex_lib (Discovery ex_p2p) (Ctx ex_p2p) (service ex_p2p) (world ex_proc)
      = ((0, Some ''advertise failed''), 1)"
    by (simp add: ex_lib_def ex_proc_def)
  have f: "lib_FindPeers ex_lib (Discovery ex_p2p) (Ctx ex_p2p) (service ex_p2p) 1
      = ((ex_chan, None), 2)"
    by (simp add: ex_lib_def)
  have flds: "Discovery ex_p2p = RoutingDiscovery 1" "Ctx ex_p2p = Scoped 1 False"
    "service ex_p2p = ''icefiredb''" "Host ex_p2p = ex_host"
    by (simp_all add: ex_p2p_def)
  have c1: "fst (lib_Advertise ex_lib (Discovery ex_p2p) (Ctx ex_p2p) (service ex_p2p)
      (world ex_proc)) = (0, Some ''advertise failed'')"
    using a by simp
  have c2: "since ex_proc (snd (snd (AdvertiseConnect ex_lib ex_p2p ex_proc)))
       = [EvAdvertise (RoutingDiscovery 1) (Scoped 1 False) ''icefiredb'' 0
            (Some ''advertise failed''),
          EvLog Debug [] [LStr ''Advertised the p2p Service.''],
          EvSleep 5,
          EvLog Debug [] [LStr ''Service Time-to-Live is %s'', LDuration 0],
          EvFindPeers (RoutingDiscovery 1) (Scoped 1 False) ''icefiredb'' None,
          EvLog Trace [] [LStr ''Discovered p2p Service Peers.''],
          EvGo (Go_handlePeerDiscovery ex_host ex_chan),
          EvLog Trace [] [LStr ''Started Peer Connection Handler.'']]"
    unfolding AdvertiseConnect_run [OF a f] flds by (simp add: since_def)
  have c3: "logged_errors (since ex_proc (snd (snd (AdvertiseConnect ex_lib ex_p2p ex_proc)))) = []"
    unfolding c2 by simp
  have c4: "fst (AdvertiseConnect ex_lib ex_p2p ex_proc) = Returned ()"
    unfolding AdvertiseConnect_run [OF a f] by simp
  from c1 c2 c3 c4 show ?thesis by blast
qed

text \<open>
  The other half of that claim holds. Whatever error Advertise returns, AdvertiseConnect
  goes on to call FindPeers; how the call leaves depends on FindPeers alone (the process
  ends only when FindPeers fails); and when FindPeers succeeds the handler is started on
  the channel it returned.
\<close>
lemma advertise_failure_not_escalated:
  assumes "lib_Advertise L (Discovery p2p) (Ctx p2p) (service p2p) (world s) = ((ttl, err), w1)"
    and "lib_FindPeers L (Discovery p2p) (Ctx p2p) (service p2p) w1 = ((ch, err'), w2)"
  shows "take 5 (since s (snd (snd (AdvertiseConnect L p2p s)))) =
           [EvAdvertise (Discovery p2p) (Ctx p2p) (service p2p) ttl err,
            EvLog Debug [] [LStr ''Advertised the p2p Service.''],
            EvSleep 5,
            EvLog Debug [] [LStr ''Service Time-to-Live is %s'', LDuration ttl],
            EvFindPeers (Discovery p2p) (Ctx p2p) (service p2p) err']
         \<and> fst (AdvertiseConnect L p2p s) = (case err' of Some e \<Rightarrow> Exited 1 | None \<Rightarrow> Returned ())
         \<and> spawned (snd (snd (AdvertiseConnect L p2p s)))
             = (case err' of Some e \<Rightarrow> spawned s
                | None \<Rightarrow> spawned s @ [Go_handlePeerDiscovery (Host p2p) ch])"
  unfolding AdvertiseConnect_run [OF assms] by (cases err') (simp_all add: since_def)

lemma advertise_failure_not_escalated_example:
  "fst (AdvertiseConnect ex_lib ex_p2p ex_proc) = Returned ()
   \<and> spawned (snd (snd (AdvertiseConnect ex_lib ex_p2p ex_proc)))
       = [Go_handlePeerDiscovery ex_host ex_chan]
   \<and> since ex_proc (snd (snd (AdvertiseConnect ex_lib ex_p2p ex_proc))) ! 0
       = EvAdvertise (RoutingDiscovery 1) (Scoped 1 False) ''icefiredb'' 0 (Some ''advertise failed'')
   \<and> since ex_proc (snd (snd (AdvertiseConnect ex_lib ex_p2p ex_proc))) ! 4
       = EvFindPeers (RoutingDiscovery 1) (Scoped 1 False) ''icefiredb'' None"
proof -
  have a: "lib_Advertise ex_lib (Discovery ex_p2p) (Ctx ex_p2p) (service ex_p2p) (world ex_proc)
      = ((0, Some ''advertise failed''), 1)"
    by (simp add: ex_lib_def ex_proc_def)
  have f: "lib_FindPeers ex_lib (Discovery ex_p2p) (Ctx ex_p2p) (service ex_p2p) 1
      = ((ex_chan, None), 2)"
    by (simp add: ex_lib_def)
  let ?evs = "since ex_proc (snd (snd (AdvertiseConnect ex_lib ex_p2p ex_proc)))"
  from advertise_failure_not_escalated [OF a f]
  have t: "take 5 ?evs =
           [EvAdvertise (Discovery ex_p2p) (Ctx ex_p2p) (service ex_p2p) 0 (Some ''advertise failed''),
            EvLog Debug [] [LStr ''Advertised the p2p Service.''],
            EvSleep 5,
            EvLog Debug [] [LStr ''Service Time-to-Live is %s'', LDuration 0],
            EvFindPeers (Discovery ex_p2p) (Ctx ex_p2p) (service ex_p2p) None]"
    and o: "fst (AdvertiseConnect ex_lib ex_p2p ex_proc) = Returned ()"
    and sp: "spawned (snd (snd (AdvertiseConnect ex_lib ex_p2p ex_proc)))
       = spawned ex_proc @ [Go_handlePeerDiscovery (Host ex_p2p) ex_chan]"
    by simp_all
  have "?evs ! 0 = take 5 ?evs ! 0" "?evs ! 4 = take 5 ?evs ! 4" by simp_all
  then show ?thesis
    unfolding t using o sp by (simp add: ex_p2p_def ex_proc_def)
qed

section \<open>Properties of bootstrapDHT\<close>

lemma count_Nil [simp]: "count P [] = 0"
  by (simp add: count_def)

lemma count_snoc [simp]: "count P (xs @ [x]) = count P xs + (if P x then 1 else 0)"
  by (simp add: count_def)

lemma count_update:
  "i < length ts \<Longrightarrow>
   count P (ts[i := t]) + (if P (ts ! i) then 1 else 0) = count P ts + (if P t then 1 else 0)"
proof (induction ts arbitrary: i)
  case Nil
  then show ?case by simp
next
  case (Cons a ts)
  show ?case
  proof (cases i)
    case 0
    then show ?thesis by (simp add: count_def)
  next
    case (Suc j)
    with Cons.prems have "j < length ts" by simp
    from Cons.IH [OF this] Suc show ?thesis by (simp add: count_def)
  qed
qed

lemma count_zero_all: "count P ts = 0 \<Longrightarrow> i < length ts \<Longrightarrow> \<not> P (ts ! i)"
  by (metis count_def filter_empty_conv length_0_conv nth_mem)

lemma succeeded_append: "succeeded (xs @ ys) = succeeded xs + succeeded ys"
  by (induction xs rule: succeeded.induct) simp_all

lemma attempted_append: "attempted (xs @ ys) = attempted xs + attempted ys"
  by (simp add: attempted_def connect_calls_append)

lemma Connect_result:
  "Connect L h c pi p = (err, p1) \<Longrightarrow> trace p1 = trace p @ [EvConnect h c pi err]"
  by (auto simp: Connect_def emit_def split: prod.splits)

lemma Bootstrap_result:
  "Bootstrap L d c p = (err, p1) \<Longrightarrow> trace p1 = trace p @ [EvBootstrap d c err]"
  by (auto simp: Bootstrap_def emit_def split: prod.splits)

lemma boot_inv_init: "boot_inv L (bootstrapDHT_init c nodehost kaddht w)"
  by (simp add: boot_inv_def bootstrapDHT_init_def attempted_def)


lemma list_all_update:
  "list_all P ts \<Longrightarrow> P t \<Longrightarrow> list_all P (ts[i := t])"
  by (metis list_all_iff set_update_subset_insert subsetD insert_iff)

lemma main_step_inv:
  assumes parse: "\<forall>a \<in> set (lib_DefaultBootstrapPeers L). fst (lib_AddrInfoFromP2pAddr L a) \<noteq> None"
    and inv: "boot_inv L s" and run: "result s = None" and st: "main_step L s = Some s'"
  shows "boot_inv L s'"
proof (cases "pc s")
  case PcBootstrap
  obtain err p1 where b: "Bootstrap L (b_kaddht s) (b_ctx s) (bproc s) = (err, p1)"
    by (metis surj_pair)
  have t: "trace p1 = trace (bproc s) @ [EvBootstrap (b_kaddht s) (b_ctx s) err]"
    using Bootstrap_result [OF b] .
  show ?thesis
  proof (cases err)
    case None
    with st PcBootstrap b have "s' = s\<lparr>bproc := logrus Trace [LStr ''Set the Kademlia DHT into Bootstrap Mode.''] p1,
                          pc := PcRange (lib_DefaultBootstrapPeers L)\<rparr>"
      by (simp add: main_step_def)
    with inv PcBootstrap run t show ?thesis
      by (simp add: boot_inv_def succeeded_append attempted_def connect_calls_append)
  next
    case (Some e)
    with st PcBootstrap b have "s' = s\<lparr>bproc := logrus_WithFields [(''error'', e)] Fatal
                 [LStr ''Failed to Bootstrap the Kademlia!''] p1, result := Some (Exited 1)\<rparr>"
      by (simp add: main_step_def Fatalln_def)
    with inv PcBootstrap run t show ?thesis
      by (simp add: boot_inv_def succeeded_append attempted_def connect_calls_append
          logrus_WithFields_def)
  qed
next
  case (PcRange rest)
  show ?thesis
  proof (cases rest)
    case Nil
    with st PcRange have "s' = s\<lparr>pc := PcWait\<rparr>" by (simp add: main_step_def)
    with inv PcRange Nil show ?thesis by (simp add: boot_inv_def)
  next
    case (Cons peeraddr rest')
    obtain peerinfo err where a: "lib_AddrInfoFromP2pAddr L peeraddr = (peerinfo, err)"
      by (metis surj_pair)
    from inv PcRange Cons have "peeraddr \<in> set (lib_DefaultBootstrapPeers L)"
      by (simp add: boot_inv_def)
    with parse a have wf: "well_formed (GConnect peerinfo)" by (cases peerinfo) auto
    from st PcRange Cons a have "s' = s\<lparr>wg := wg s + 1,
                      totalbootpeers := totalbootpeers s + 1,
                      tasks := tasks s @ [GConnect peerinfo],
                      pc := PcRange rest'\<rparr>"
      by (simp add: main_step_def)
    with inv PcRange Cons wf show ?thesis by (simp add: boot_inv_def)
  qed
next
  case PcWait
  with st have w: "wg s = 0" by (simp add: main_step_def split: if_splits)
  with st PcWait have "s' = s\<lparr>bproc := logrus Debug [LStr ''Connected to %d out of %d Bootstrap Peers.'',
                                               LInt32 (connectedbootpeers s),
                                               LInt32 (totalbootpeers s)] (bproc s),
                         pc := PcEnd, result := Some (Returned ())\<rparr>"
    by (simp add: main_step_def)
  with inv PcWait w show ?thesis
    by (simp add: boot_inv_def succeeded_append attempted_def connect_calls_append)
next
  case PcEnd
  with st show ?thesis by (simp add: main_step_def)
qed


lemma task_step_inv:
  assumes inv: "boot_inv L s" and st: "task_step L i s = Some s'"
  shows "boot_inv L s'"
proof -
  from st have i: "i < length (tasks s)" by (simp add: task_step_def split: if_splits)
  from inv have wf: "well_formed (tasks s ! i)"
    using i by (simp add: boot_inv_def list_all_length)
  note cu = count_update [OF i]
  have not_end: "pc s \<noteq> PcEnd" if "undone (tasks s ! i)"
  proof
    assume "pc s = PcEnd"
    with inv have "count undone (tasks s) = 0" by (simp add: boot_inv_def)
    from count_zero_all [OF this i] that show False by simp
  qed
  have wg_pos: "wg s \<noteq> 0" if "undone (tasks s ! i)"
  proof
    assume "wg s = 0"
    with inv have "count undone (tasks s) = 0" by (simp add: boot_inv_def)
    from count_zero_all [OF this i] that show False by simp
  qed
  show ?thesis
  proof (cases "tasks s ! i")
    case (GConnect pi)
    with wf obtain peerinfo where pi: "pi = Some peerinfo" by (cases pi) auto
    obtain err p1 where c: "Connect L (b_nodehost s) (b_ctx s) peerinfo (bproc s) = (err, p1)"
      by (metis surj_pair)
    have t: "trace p1 = trace (bproc s) @ [EvConnect (b_nodehost s) (b_ctx s) peerinfo err]"
      using Connect_result [OF c] .
    from st i GConnect pi c have s': "s' = s\<lparr>bproc := p1,
                      tasks := (tasks s)[i := (if err = None then GAdd else GDone)]\<rparr>"
      by (simp add: task_step_def)
    from GConnect have pe: "pc s \<noteq> PcEnd" using not_end by simp
    show ?thesis
    proof (cases err)
      case None
      from cu [of undone GAdd] cu [of "\<lambda>t. t = GAdd" GAdd] cu [of resolved GAdd] GConnect
      have "count undone ((tasks s)[i := GAdd]) = count undone (tasks s)"
        "count (\<lambda>t. t = GAdd) ((tasks s)[i := GAdd]) = Suc (count (\<lambda>t. t = GAdd) (tasks s))"
        "count resolved ((tasks s)[i := GAdd]) = Suc (count resolved (tasks s))"
        by simp_all
      with inv s' None t pe show ?thesis
        by (cases "pc s")
           (simp_all add: boot_inv_def succeeded_append attempted_def connect_calls_append
              list_all_update)
    next
      case (Some e)
      from cu [of undone GDone] cu [of "\<lambda>t. t = GAdd" GDone] cu [of resolved GDone] GConnect
      have "count undone ((tasks s)[i := GDone]) = count undone (tasks s)"
        "count (\<lambda>t. t = GAdd) ((tasks s)[i := GDone]) = count (\<lambda>t. t = GAdd) (tasks s)"
        "count resolved ((tasks s)[i := GDone]) = Suc (count resolved (tasks s))"
        by simp_all
      with inv s' Some t pe show ?thesis
        by (cases "pc s")
           (simp_all add: boot_inv_def succeeded_append attempted_def connect_calls_append
              list_all_update)
    qed
  next
    case GAdd
    from st i GAdd have s': "s' = s\<lparr>connectedbootpeers := connectedbootpeers s + 1,
        tasks := (tasks s)[i := GDone]\<rparr>"
      by (simp add: task_step_def)
    from GAdd have pe: "pc s \<noteq> PcEnd" using not_end by simp
    from cu [of undone GDone] cu [of "\<lambda>t. t = GAdd" GDone] cu [of resolved GDone] GAdd
    have "count undone ((tasks s)[i := GDone]) = count undone (tasks s)"
      "count (\<lambda>t. t = GAdd) (tasks s) = Suc (count (\<lambda>t. t = GAdd) ((tasks s)[i := GDone]))"
      "count resolved ((tasks s)[i := GDone]) = count resolved (tasks s)"
      by simp_all
    with inv s' pe show ?thesis
      by (cases "pc s") (simp_all add: boot_inv_def list_all_update)
  next
    case GDone
    from GDone have pe: "pc s \<noteq> PcEnd" and w: "wg s \<noteq> 0" using not_end wg_pos by simp_all
    from st i GDone w have s': "s' = s\<lparr>tasks := (tasks s)[i := GFinished], wg := wg s - 1\<rparr>"
      by (simp add: task_step_def wg_Done_def)
    from cu [of undone GFinished] cu [of "\<lambda>t. t = GAdd" GFinished] cu [of resolved GFinished] GDone
    have "Suc (count undone ((tasks s)[i := GFinished])) = count undone (tasks s)"
      "count (\<lambda>t. t = GAdd) ((tasks s)[i := GFinished]) = count (\<lambda>t. t = GAdd) (tasks s)"
      "count resolved ((tasks s)[i := GFinished]) = count resolved (tasks s)"
      by simp_all
    with inv s' pe w show ?thesis
      by (cases "pc s") (simp_all add: boot_inv_def list_all_update)
  next
    case GCrash
    with wf show ?thesis by simp
  next
    case GFinished
    with st i show ?thesis by (simp add: task_step_def)
  qed
qed

lemma step_inv:
  assumes "\<forall>a \<in> set (lib_DefaultBootstrapPeers L). fst (lib_AddrInfoFromP2pAddr L a) \<noteq> None"
    and "boot_inv L s" and "step L a s = Some s'"
  shows "boot_inv L s'"
proof (cases a)
  case Main
  with assms(3) have "result s = None" "main_step L s = Some s'"
    by (auto simp: step_def split: option.splits outcome.splits)
  with assms(1,2) show ?thesis by (blast intro: main_step_inv)
next
  case (Task i)
  with assms(3) have "task_step L i s = Some s'"
    by (auto simp: step_def split: option.splits outcome.splits)
  with assms(2) show ?thesis by (blast intro: task_step_inv)
qed

lemma exec_inv:
  assumes "\<forall>a \<in> set (lib_DefaultBootstrapPeers L). fst (lib_AddrInfoFromP2pAddr L a) \<noteq> None"
  shows "boot_inv L s \<Longrightarrow> exec L sched s = Some s' \<Longrightarrow> boot_inv L s'"
proof (induction sched arbitrary: s)
  case Nil
  then show ?case by simp
next
  case (Cons a sched)
  from Cons.prems(2) obtain s1 where s1: "step L a s = Some s1" "exec L sched s1 = Some s'"
    by (auto split: option.splits)
  from step_inv [OF assms Cons.prems(1) s1(1)] have "boot_inv L s1" .
  from Cons.IH [OF this s1(2)] show ?case .
qed

lemma weight_update:
  "i < length ts \<Longrightarrow>
   sum_list (map task_weight (ts[i := t])) + task_weight (ts ! i)
     = sum_list (map task_weight ts) + task_weight t"
proof (induction ts arbitrary: i)
  case Nil
  then show ?case by simp
next
  case (Cons a ts)
  show ?case
  proof (cases i)
    case 0
    then show ?thesis by simp
  next
    case (Suc j)
    with Cons.prems have "j < length ts" by simp
    from Cons.IH [OF this] Suc show ?thesis by simp
  qed
qed

lemma main_step_weight:
  assumes "result s = None" and "main_step L s = Some s'"
  shows "boot_weight L s' < boot_weight L s"
proof (cases "pc s")
  case PcBootstrap
  with assms show ?thesis
    by (auto simp: main_step_def boot_weight_def Fatalln_def split: prod.splits option.splits)
next
  case (PcRange rest)
  with assms show ?thesis
    by (cases rest) (auto simp: main_step_def boot_weight_def split: prod.splits)
next
  case PcWait
  with assms show ?thesis
    by (auto simp: main_step_def boot_weight_def split: if_splits)
next
  case PcEnd
  with assms show ?thesis by (simp add: main_step_def)
qed

lemma task_step_weight:
  assumes alive: "result s = None \<or> result s = Some (Returned ())"
    and st: "task_step L i s = Some s'"
  shows "boot_weight L s' < boot_weight L s"
proof -
  from st have i: "i < length (tasks s)" by (simp add: task_step_def split: if_splits)
  note wu = weight_update [OF i]
  from alive have w: "boot_weight L s = 1 + pc_weight L (pc s) + sum_list (map task_weight (tasks s))"
    by (auto simp: boot_weight_def)
  show ?thesis
  proof (cases "tasks s ! i")
    case (GConnect pi)
    show ?thesis
    proof (cases pi)
      case None
      with st i GConnect have s': "s' = wg_Done (s\<lparr>tasks := (tasks s)[i := GCrash]\<rparr>)"
        by (simp add: task_step_def)
      from wu [of GCrash] GConnect
      have "sum_list (map task_weight ((tasks s)[i := GCrash])) < sum_list (map task_weight (tasks s))"
        by simp
      with alive show ?thesis
        unfolding w s' by (auto simp: boot_weight_def wg_Done_def)
    next
      case (Some peerinfo)
      obtain err p1 where c: "Connect L (b_nodehost s) (b_ctx s) peerinfo (bproc s) = (err, p1)"
        by (metis surj_pair)
      with st i GConnect Some have s': "s' = s\<lparr>bproc := p1,
                      tasks := (tasks s)[i := (if err = None then GAdd else GDone)]\<rparr>"
        by (simp add: task_step_def)
      from wu [of GAdd] wu [of GDone] GConnect
      have "sum_list (map task_weight ((tasks s)[i := GAdd])) < sum_list (map task_weight (tasks s))"
        "sum_list (map task_weight ((tasks s)[i := GDone])) < sum_list (map task_weight (tasks s))"
        by simp_all
      with alive show ?thesis
        unfolding w s' by (auto simp: boot_weight_def)
    qed
  next
    case GAdd
    with st i have s': "s' = s\<lparr>connectedbootpeers := connectedbootpeers s + 1,
        tasks := (tasks s)[i := GDone]\<rparr>"
      by (simp add: task_step_def)
    from wu [of GDone] GAdd
    have "sum_list (map task_weight ((tasks s)[i := GDone])) < sum_list (map task_weight (tasks s))"
      by simp
    with alive show ?thesis
      unfolding w s' by (auto simp: boot_weight_def)
  next
    case GDone
    with st i have s': "s' = wg_Done (s\<lparr>tasks := (tasks s)[i := GFinished]\<rparr>)"
      by (simp add: task_step_def)
    from wu [of GFinished] GDone
    have "sum_list (map task_weight ((tasks s)[i := GFinished])) < sum_list (map task_weight (tasks s))"
      by simp
    with alive show ?thesis
      unfolding w s' by (auto simp: boot_weight_def wg_Done_def)
  next
    case GCrash
    with st i have "s' = s\<lparr>result := Some (Panicked ''invalid memory address or nil pointer dereference'')\<rparr>"
      by (simp add: task_step_def)
    then show ?thesis unfolding w by (simp add: boot_weight_def)
  next
    case GFinished
    with st i show ?thesis by (simp add: task_step_def)
  qed
qed

lemma step_weight: "step L a s = Some s' \<Longrightarrow> boot_weight L s' < boot_weight L s"
proof (cases a)
  case Main
  assume "step L a s = Some s'"
  with Main have "result s = None" "main_step L s = Some s'"
    by (auto simp: step_def split: option.splits outcome.splits)
  then show ?thesis by (rule main_step_weight)
next
  case (Task i)
  assume "step L a s = Some s'"
  with Task have "result s = None \<or> result s = Some (Returned ())" "task_step L i s = Some s'"
    by (auto simp: step_def split: option.splits outcome.splits)
  then show ?thesis by (rule task_step_weight)
qed

lemma exec_length: "exec L sched s = Some s' \<Longrightarrow> length sched + boot_weight L s' \<le> boot_weight L s"
proof (induction sched arbitrary: s)
  case Nil
  then show ?case by simp
next
  case (Cons a sched)
  from Cons.prems obtain s1 where s1: "step L a s = Some s1" "exec L sched s1 = Some s'"
    by (auto split: option.splits)
  from step_weight [OF s1(1)] Cons.IH [OF s1(2)] show ?case by simp
qed

lemma enabled_iff:
  "enabled L s \<noteq> [] \<longleftrightarrow> (step L Main s \<noteq> None \<or> (\<exists>i < length (tasks s). step L (Task i) s \<noteq> None))"
  by (auto simp: enabled_def filter_empty_conv)

lemma count_pos_ex: "count P ts \<noteq> 0 \<Longrightarrow> \<exists>i < length ts. P (ts ! i)"
  by (metis count_def filter_False in_set_conv_nth list.size(3))

lemma undone_task_steps:
  "i < length (tasks s) \<Longrightarrow> undone (tasks s ! i) \<Longrightarrow> task_step L i s \<noteq> None"
  by (cases "tasks s ! i") (auto simp: task_step_def split: option.splits prod.splits)

lemma boot_progress:
  assumes inv: "boot_inv L s" and run: "result s = None"
  shows "enabled L s \<noteq> []"
proof (cases "pc s")
  case PcBootstrap
  then have "main_step L s \<noteq> None"
    by (auto simp: main_step_def Fatalln_def split: prod.splits option.splits)
  with run show ?thesis by (simp add: enabled_iff step_def)
next
  case (PcRange rest)
  then have "main_step L s \<noteq> None"
    by (cases rest) (auto simp: main_step_def split: prod.splits)
  with run show ?thesis by (simp add: enabled_iff step_def)
next
  case PcWait
  show ?thesis
  proof (cases "wg s = 0")
    case True
    with PcWait have "main_step L s \<noteq> None" by (simp add: main_step_def)
    with run show ?thesis by (simp add: enabled_iff step_def)
  next
    case False
    with inv have "count undone (tasks s) \<noteq> 0" by (simp add: boot_inv_def)
    from count_pos_ex [OF this] obtain i where i: "i < length (tasks s)" "undone (tasks s ! i)"
      by blast
    from undone_task_steps [OF this] have "task_step L i s \<noteq> None" .
    with run i(1) show ?thesis by (auto simp: enabled_iff step_def)
  qed
next
  case PcEnd
  with inv run show ?thesis by (simp add: boot_inv_def)
qed

lemma all_finished:
  assumes "count undone ts = 0" and "list_all well_formed ts"
  shows "ts = replicate (length ts) GFinished"
proof -
  have "t = GFinished" if "t \<in> set ts" for t
  proof -
    from that assms(1) have "\<not> undone t"
      by (metis count_def filter_empty_conv length_0_conv)
    moreover from that assms(2) have "well_formed t" by (simp add: list_all_iff)
    ultimately show ?thesis by (cases t rule: well_formed.cases) simp_all
  qed
  then show ?thesis by (simp add: replicate_length_same)
qed

lemma count_replicate: "count P (replicate n x) = (if P x then n else 0)"
  by (simp add: count_def)

lemma boot_returned:
  assumes inv: "boot_inv L s" and ret: "result s = Some (Returned ())"
  shows "tasks s = replicate (length (lib_DefaultBootstrapPeers L)) GFinished"
    and "attempted (trace (bproc s)) = length (lib_DefaultBootstrapPeers L)"
    and "totalbootpeers s = word_of_nat (length (lib_DefaultBootstrapPeers L))"
    and "connectedbootpeers s = word_of_nat (succeeded (trace (bproc s)))"
    and "last (trace (bproc s)) =
           EvLog Debug [] [LStr ''Connected to %d out of %d Bootstrap Peers.'',
                           LInt32 (connectedbootpeers s), LInt32 (totalbootpeers s)]"
    and "enabled L s = []"
proof -
  from inv ret have pc: "pc s = PcEnd" by (cases "pc s") (simp_all add: boot_inv_def)
  with inv have len: "length (tasks s) = length (lib_DefaultBootstrapPeers L)" and wg: "wg s = 0"
    by (simp_all add: boot_inv_def)
  from inv wg have "count undone (tasks s) = 0" "list_all well_formed (tasks s)"
    by (simp_all add: boot_inv_def)
  from all_finished [OF this] len
  show ts: "tasks s = replicate (length (lib_DefaultBootstrapPeers L)) GFinished" by simp
  from inv show "attempted (trace (bproc s)) = length (lib_DefaultBootstrapPeers L)"
    unfolding boot_inv_def ts by (simp add: count_replicate)
  from inv len show "totalbootpeers s = word_of_nat (length (lib_DefaultBootstrapPeers L))"
    by (simp add: boot_inv_def)
  from inv show "connectedbootpeers s = word_of_nat (succeeded (trace (bproc s)))"
    unfolding boot_inv_def ts by (simp add: count_replicate)
  from inv pc show "last (trace (bproc s)) =
           EvLog Debug [] [LStr ''Connected to %d out of %d Bootstrap Peers.'',
                           LInt32 (connectedbootpeers s), LInt32 (totalbootpeers s)]"
    by (simp add: boot_inv_def)
  have "task_step L i s = None" for i
    by (cases "i < length (lib_DefaultBootstrapPeers L)") (simp_all add: task_step_def ts)
  with ret show "enabled L s = []"
    by (simp add: enabled_def step_def filter_empty_conv)
qed

lemma succeeded_le_attempted: "succeeded es \<le> attempted es"
  by (induction es rule: succeeded.induct) (simp_all add: attempted_def)

lemma sint_word_of_nat:
  "n < 2 ^ 31 \<Longrightarrow> sint (word_of_nat n :: 32 word) = int n"
  by (simp add: signed_of_nat signed_take_bit_int_eq_self)

lemma bootstrapDHT_init_weight:
  "boot_weight L (bootstrapDHT_init c nodehost kaddht w) = 4 * length (lib_DefaultBootstrapPeers L) + 4"
  by (simp add: boot_weight_def bootstrapDHT_init_def)

lemma bootstrapDHT_empty:
  assumes "lib_DefaultBootstrapPeers L = []" and "fst (lib_Bootstrap L kaddht c w) = None"
  shows "map_option (\<lambda>s. (result s, connectedbootpeers s, totalbootpeers s, tasks s))
           (exec L [Main, Main, Main] (bootstrapDHT_init c nodehost kaddht w))
         = Some (Some (Returned ()), 0, 0, [])"
proof -
  obtain w' where "lib_Bootstrap L kaddht c w = (None, w')"
    using assms(2) by (cases "lib_Bootstrap L kaddht c w") auto
  then show ?thesis
    using assms(1)
    by (simp add: step_def main_step_def bootstrapDHT_init_def Bootstrap_def)
qed

lemma ex_bootstrap_run:
  "map_option (\<lambda>s. (result s, connectedbootpeers s, totalbootpeers s, succeeded (trace (bproc s))))
     (exec ex_lib [Main, Main, Main, Task 0, Task 1, Main, Task 0, Task 1, Task 0, Main]
        (bootstrapDHT_init Background ex_host (IpfsDHT 1) 0))
   = Some (Some (Returned ()), 1, 2, 1)"
  by (simp add: step_def main_step_def task_step_def wg_Done_def bootstrapDHT_init_def
      Bootstrap_def Connect_def emit_def logrus_def ex_defs)

text \<open>
  C3 fails on the code. A bootstrap entry that does not parse makes AddrInfoFromP2pAddr
  return a nil pointer, which the goroutine dereferences: the process panics, whether the
  goroutine crashes while the main goroutine still waits or after it has returned.
\<close>
theorem malformed_bootstrap_peer_panics:
  "lib_AddrInfoFromP2pAddr ex_lib_malformed ''/ip4/10.0.0.3/tcp/4001''
     = (None, Some ''invalid p2p multiaddr'')
   \<and> map_option result
        (exec ex_lib_malformed [Main, Main, Task 0, Task 0]
           (bootstrapDHT_init Background ex_host (IpfsDHT 1) 0))
       = Some (Some (Panicked ''invalid memory address or nil pointer dereference''))
   \<and> map_option result
        (exec ex_lib_malformed [Main, Main, Task 0, Main, Main, Task 0]
           (bootstrapDHT_init Background ex_host (IpfsDHT 1) 0))
       = Some (Some (Panicked ''invalid memory address or nil pointer dereference''))"
  by (simp add: step_def main_step_def task_step_def wg_Done_def bootstrapDHT_init_def
      Bootstrap_def Connect_def emit_def logrus_def ex_defs)

text \<open>
  C2. Take N bootstrap peers, all of which parse, and any interleaving of the goroutines.
  When bootstrapDHT has returned, its last log line reports K and N as int32 values, where
  K is the number of connection attempts that succeeded; all N attempts have been made,
  every goroutine has finished and nothing more can run. Until it returns some goroutine
  can always take a step and no run has more than 4N + 4 steps, so it does return. With
  no bootstrap peers the main goroutine returns in three steps of its own, waiting for
  nothing, with both counters 0.
\<close>
theorem bootstrapDHT_reports_attempted_and_succeeded:
  assumes parse: "\<forall>a \<in> set (lib_DefaultBootstrapPeers L). fst (lib_AddrInfoFromP2pAddr L a) \<noteq> None"
    and run: "exec L sched (bootstrapDHT_init c nodehost kaddht w) = Some s"
  shows "(result s = Some (Returned ()) \<longrightarrow>
            last (trace (bproc s)) =
              EvLog Debug [] [LStr ''Connected to %d out of %d Bootstrap Peers.'',
                              LInt32 (word_of_nat (succeeded (trace (bproc s)))),
                              LInt32 (word_of_nat (length (lib_DefaultBootstrapPeers L)))]
            \<and> attempted (trace (bproc s)) = length (lib_DefaultBootstrapPeers L)
            \<and> tasks s = replicate (length (lib_DefaultBootstrapPeers L)) GFinished
            \<and> enabled L s = []
            \<and> (length (lib_DefaultBootstrapPeers L) < 2 ^ 31 \<longrightarrow>
                 sint (totalbootpeers s) = int (length (lib_DefaultBootstrapPeers L))
                 \<and> sint (connectedbootpeers s) = int (succeeded (trace (bproc s)))))
       \<and> (result s = None \<longrightarrow> enabled L s \<noteq> [])
       \<and> length sched \<le> 4 * length (lib_DefaultBootstrapPeers L) + 4
       \<and> (lib_DefaultBootstrapPeers L = [] \<and> fst (lib_Bootstrap L kaddht c w) = None \<longrightarrow>
            map_option (\<lambda>s. (result s, connectedbootpeers s, totalbootpeers s, tasks s))
              (exec L [Main, Main, Main] (bootstrapDHT_init c nodehost kaddht w))
            = Some (Some (Returned ()), 0, 0, []))"
proof -
  have inv: "boot_inv L s"
    using exec_inv [OF parse boot_inv_init run] .
  have ret: "last (trace (bproc s)) =
              EvLog Debug [] [LStr ''Connected to %d out of %d Bootstrap Peers.'',
                              LInt32 (word_of_nat (succeeded (trace (bproc s)))),
                              LInt32 (word_of_nat (length (lib_DefaultBootstrapPeers L)))]
            \<and> attempted (trace (bproc s)) = length (lib_DefaultBootstrapPeers L)
            \<and> tasks s = replicate (length (lib_DefaultBootstrapPeers L)) GFinished
            \<and> enabled L s = []
            \<and> (length (lib_DefaultBootstrapPeers L) < 2 ^ 31 \<longrightarrow>
                 sint (totalbootpeers s) = int (length (lib_DefaultBootstrapPeers L))
                 \<and> sint (connectedbootpeers s) = int (succeeded (trace (bproc s))))"
    if r: "result s = Some (Returned ())"
  proof -
    note b = boot_returned [OF inv r]
    have "succeeded (trace (bproc s)) \<le> length (lib_DefaultBootstrapPeers L)"
      using succeeded_le_attempted [of "trace (bproc s)"] b(2) by simp
    then have "sint (totalbootpeers s) = int (length (lib_DefaultBootstrapPeers L))
        \<and> sint (connectedbootpeers s) = int (succeeded (trace (bproc s)))"
      if "length (lib_DefaultBootstrapPeers L) < 2 ^ 31"
      using that unfolding b(3) b(4) by (simp add: sint_word_of_nat)
    moreover have "last (trace (bproc s)) =
              EvLog Debug [] [LStr ''Connected to %d out of %d Bootstrap Peers.'',
                              LInt32 (word_of_nat (succeeded (trace (bproc s)))),
                              LInt32 (word_of_nat (length (lib_DefaultBootstrapPeers L)))]"
      using b(5) unfolding b(3) b(4) .
    ultimately show ?thesis using b(1,2,6) by blast
  qed
  have prog: "enabled L s \<noteq> []" if "result s = None"
    using boot_progress [OF inv that] .
  have len: "length sched \<le> 4 * length (lib_DefaultBootstrapPeers L) + 4"
    using exec_length [OF run] by (simp add: bootstrapDHT_init_weight)
  have empty: "map_option (\<lambda>s. (result s, connectedbootpeers s, totalbootpeers s, tasks s))
              (exec L [Main, Main, Main] (bootstrapDHT_init c nodehost kaddht w))
            = Some (Some (Returned ()), 0, 0, [])"
    if "lib_DefaultBootstrapPeers L = [] \<and> fst (lib_Bootstrap L kaddht c w) = None"
    using that bootstrapDHT_empty [of L kaddht c w nodehost] by blast
  from ret prog len empty show ?thesis by blast
qed

theorem bootstrapDHT_reports_attempted_and_succeeded_witness:
  "\<exists>s. exec ex_lib [Main, Main, Main, Task 0, Task 1, Main, Task 0, Task 1, Task 0, Main]
          (bootstrapDHT_init Background ex_host (IpfsDHT 1) 0) = Some s
       \<and> result s = Some (Returned ())
       \<and> succeeded (trace (bproc s)) = 1
       \<and> last (trace (bproc s)) =
           EvLog Debug [] [LStr ''Connected to %d out of %d Bootstrap Peers.'', LInt32 1, LInt32 2]
       \<and> attempted (trace (bproc s)) = 2
       \<and> sint (totalbootpeers s) = 2 \<and> sint (connectedbootpeers s) = 1"
proof -
  let ?sched = "[Main, Main, Main, Task 0, Task 1, Main, Task 0, Task 1, Task 0, Main]"
  have parse: "\<forall>a \<in> set (lib_DefaultBootstrapPeers ex_lib). fst (lib_AddrInfoFromP2pAddr ex_lib a) \<noteq> None"
    by (simp add: ex_lib_def)
  have n: "length (lib_DefaultBootstrapPeers ex_lib) = 2" by (simp add: ex_lib_def)
  from ex_bootstrap_run obtain s
    where run: "exec ex_lib ?sched (bootstrapDHT_init Background ex_host (IpfsDHT 1) 0) = Some s"
      and r: "result s = Some (Returned ())" and k: "succeeded (trace (bproc s)) = 1"
    by auto
  from bootstrapDHT_reports_attempted_and_succeeded [OF parse run] r
  have "last (trace (bproc s)) =
           EvLog Debug [] [LStr ''Connected to %d out of %d Bootstrap Peers.'', LInt32 1, LInt32 2]"
    "attempted (trace (bproc s)) = 2"
    "sint (totalbootpeers s) = 2 \<and> sint (connectedbootpeers s) = 1"
    unfolding n k by simp_all
  with run r k show ?thesis by blast
qed

section \<open>Fatal errors\<close>

lemma AdvertiseConnect_fatal:
  assumes "EvFindPeers (Discovery p2p) (Ctx p2p) (service p2p) (Some e)
             \<in> set (since s (snd (snd (AdvertiseConnect L p2p s))))"
  shows "fst (AdvertiseConnect L p2p s) = Exited 1
      \<and> dropWhile (\<lambda>ev. ev \<noteq> EvFindPeers (Discovery p2p) (Ctx p2p) (service p2p) (Some e))
           (since s (snd (snd (AdvertiseConnect L p2p s))))
          = [EvFindPeers (Discovery p2p) (Ctx p2p) (service p2p) (Some e),
             EvLog Fatal [(''error'', e)] [LStr ''P2P Peer Discovery Failed!'']]
      \<and> spawned (snd (snd (AdvertiseConnect L p2p s))) = spawned s
      \<and> with_handlers L s (AdvertiseConnect L p2p s) = snd (snd (AdvertiseConnect L p2p s))"
proof -
  obtain ttl err w1 where a: "lib_Advertise L (Discovery p2p) (Ctx p2p) (service p2p) (world s)
      = ((ttl, err), w1)"
    by (metis surj_pair)
  obtain ch err' w2 where f: "lib_FindPeers L (Discovery p2p) (Ctx p2p) (service p2p) w1
      = ((ch, err'), w2)"
    by (metis surj_pair)
  show ?thesis
    using assms unfolding AdvertiseConnect_run [OF a f]
    by (cases err') (auto simp: since_def with_handlers_def)
qed

lemma AnnounceConnect_fatal:
  assumes "EvProvide (KadDHT p2p) (Ctx p2p) k True (Some e)
             \<in> set (since s (snd (snd (AnnounceConnect L p2p s))))"
  shows "fst (AnnounceConnect L p2p s) = Exited 1
      \<and> dropWhile (\<lambda>ev. ev \<noteq> EvProvide (KadDHT p2p) (Ctx p2p) k True (Some e))
           (since s (snd (snd (AnnounceConnect L p2p s))))
          = [EvProvide (KadDHT p2p) (Ctx p2p) k True (Some e),
             EvLog Fatal [(''error'', e)] [LStr ''Failed to Announce Service CID!'']]
      \<and> spawned (snd (snd (AnnounceConnect L p2p s))) = spawned s
      \<and> with_handlers L s (AnnounceConnect L p2p s) = snd (snd (AnnounceConnect L p2p s))"
proof -
  define k' where "k' = NewCidV1 12 ([0x12, 0x20] @ Sum256 (bytes_of_string (service p2p)))"
  obtain err w1 where a: "lib_Provide L (KadDHT p2p) (Ctx p2p) k' True (world s) = (err, w1)"
    by (metis surj_pair)
  obtain ch w2 where f: "lib_FindProvidersAsync L (KadDHT p2p) (Ctx p2p) k' 0 w1 = (ch, w2)"
    by (metis surj_pair)
  show ?thesis
    using assms unfolding AnnounceConnect_run [OF k'_def a f]
    by (cases err) (auto simp: since_def with_handlers_def)
qed

lemma bootstrapDHT_fatal:
  assumes "fst (lib_Bootstrap L kaddht c w) = Some e"
  shows "map_option (\<lambda>s1. (result s1, trace (bproc s1), tasks s1, enabled L s1))
           (step L Main (bootstrapDHT_init c nodehost kaddht w))
         = Some (Some (Exited 1),
                 [EvBootstrap kaddht c (Some e),
                  EvLog Fatal [(''error'', e)] [LStr ''Failed to Bootstrap the Kademlia!'']],
                 [], [])"
proof -
  obtain w' where "lib_Bootstrap L kaddht c w = (Some e, w')"
    using assms by (cases "lib_Bootstrap L kaddht c w") auto
  then show ?thesis
    by (simp add: step_def main_step_def bootstrapDHT_init_def Bootstrap_def Fatalln_def
        logrus_WithFields_def emit_def enabled_def)
qed

lemma bootstrapDHT_first_step: "step L (Task i) (bootstrapDHT_init c nodehost kaddht w) = None"
  by (simp add: step_def task_step_def bootstrapDHT_init_def)

text \<open>
  C6. A failure of FindPeers, of Provide or of the DHT's Bootstrap ends the process: the
  call leaves with \<open>os.Exit(1)\<close>, the failed call is followed by the fatal log line and by
  nothing else, no handler is started and nothing can run afterwards. (In bootstrapDHT the
  Bootstrap call is the first step, before any goroutine exists.)
\<close>
theorem discovery_failures_are_fatal:
  "(EvFindPeers (Discovery p2p) (Ctx p2p) (service p2p) (Some e)
       \<in> set (since s (snd (snd (AdvertiseConnect L p2p s)))) \<longrightarrow>
      fst (AdvertiseConnect L p2p s) = Exited 1
      \<and> dropWhile (\<lambda>ev. ev \<noteq> EvFindPeers (Discovery p2p) (Ctx p2p) (service p2p) (Some e))
           (since s (snd (snd (AdvertiseConnect L p2p s))))
          = [EvFindPeers (Discovery p2p) (Ctx p2p) (service p2p) (Some e),
             EvLog Fatal [(''error'', e)] [LStr ''P2P Peer Discovery Failed!'']]
      \<and> spawned (snd (snd (AdvertiseConnect L p2p s))) = spawned s
      \<and> with_handlers L s (AdvertiseConnect L p2p s) = snd (snd (AdvertiseConnect L p2p s)))
   \<and> (EvProvide (KadDHT p2p) (Ctx p2p) k True (Some e)
       \<in> set (since s (snd (snd (AnnounceConnect L p2p s)))) \<longrightarrow>
      fst (AnnounceConnect L p2p s) = Exited 1
      \<and> dropWhile (\<lambda>ev. ev \<noteq> EvProvide (KadDHT p2p) (Ctx p2p) k True (Some e))
           (since s (snd (snd (AnnounceConnect L p2p s))))
          = [EvProvide (KadDHT p2p) (Ctx p2p) k True (Some e),
             EvLog Fatal [(''error'', e)] [LStr ''Failed to Announce Service CID!'']]
      \<and> spawned (snd (snd (AnnounceConnect L p2p s))) = spawned s
      \<and> with_handlers L s (AnnounceConnect L p2p s) = snd (snd (AnnounceConnect L p2p s)))
   \<and> (fst (lib_Bootstrap L kaddht c w) = Some e \<longrightarrow>
      step L (Task i) (bootstrapDHT_init c nodehost kaddht w) = None
      \<and> map_option (\<lambda>s1. (result s1, trace (bproc s1), tasks s1, enabled L s1))
           (step L Main (bootstrapDHT_init c nodehost kaddht w))
         = Some (Some (Exited 1),
                 [EvBootstrap kaddht c (Some e),
                  EvLog Fatal [(''error'', e)] [LStr ''Failed to Bootstrap the Kademlia!'']],
                 [], []))"
  using AdvertiseConnect_fatal [of p2p e s L] AnnounceConnect_fatal [of p2p k e s L]
    bootstrapDHT_fatal [of L kaddht c w e nodehost] bootstrapDHT_first_step [of L i c nodehost kaddht w]
  by blast


theorem discovery_failures_are_fatal_witness:
  "fst (AdvertiseConnect ex_lib_failing ex_p2p ex_proc) = Exited 1
   \<and> spawned (snd (snd (AdvertiseConnect ex_lib_failing ex_p2p ex_proc))) = []
   \<and> fst (AnnounceConnect ex_lib_failing ex_p2p ex_proc) = Exited 1
   \<and> spawned (snd (snd (AnnounceConnect ex_lib_failing ex_p2p ex_proc))) = []
   \<and> map_option result
        (step ex_lib_failing Main (bootstrapDHT_init Background ex_host (IpfsDHT 1) 0))
       = Some (Some (Exited 1))"
proof -
  have a: "lib_Advertise ex_lib_failing (Discovery ex_p2p) (Ctx ex_p2p) (service ex_p2p) (world ex_proc)
      = ((0, Some ''advertise failed''), 1)"
    by (simp add: ex_lib_failing_def ex_lib_def ex_proc_def)
  have f: "lib_FindPeers ex_lib_failing (Discovery ex_p2p) (Ctx ex_p2p) (service ex_p2p) 1
      = (([], Some ''no peers''), 2)"
    by (simp add: ex_lib_failing_def ex_lib_def)
  have m1: "EvFindPeers (Discovery ex_p2p) (Ctx ex_p2p) (service ex_p2p) (Some ''no peers'')
      \<in> set (since ex_proc (snd (snd (AdvertiseConnect ex_lib_failing ex_p2p ex_proc))))"
    unfolding AdvertiseConnect_run [OF a f] by (simp add: since_def)
  define k where "k = NewCidV1 12 ([0x12, 0x20] @ Sum256 (bytes_of_string (service ex_p2p)))"
  have p: "lib_Provide ex_lib_failing (KadDHT ex_p2p) (Ctx ex_p2p) k True (world ex_proc)
      = (Some ''provide failed'', 1)"
    by (simp add: ex_lib_failing_def ex_lib_def ex_proc_def)
  have q: "lib_FindProvidersAsync ex_lib_failing (KadDHT ex_p2p) (Ctx ex_p2p) k 0 1
      = ([Send ex_peerA, Send ex_self], 2)"
    by (simp add: ex_lib_failing_def ex_lib_def)
  have m2: "EvProvide (KadDHT ex_p2p) (Ctx ex_p2p) k True (Some ''provide failed'')
      \<in> set (since ex_proc (snd (snd (AnnounceConnect ex_lib_failing ex_p2p ex_proc))))"
    unfolding AnnounceConnect_run [OF k_def p q] by (simp add: since_def)
  have m3: "fst (lib_Bootstrap ex_lib_failing (IpfsDHT 1) Background 0) = Some ''bootstrap failed''"
    by (simp add: ex_lib_failing_def ex_lib_def)
  from m1 discovery_failures_are_fatal
    [where p2p = ex_p2p and e = "''no peers''" and s = ex_proc and L = ex_lib_failing]
  have r1: "fst (AdvertiseConnect ex_lib_failing ex_p2p ex_proc) = Exited 1"
    "spawned (snd (snd (AdvertiseConnect ex_lib_failing ex_p2p ex_proc))) = spawned ex_proc"
    by blast+
  from m2 discovery_failures_are_fatal
    [where p2p = ex_p2p and e = "''provide failed''" and s = ex_proc and L = ex_lib_failing
       and k = k]
  have r2: "fst (AnnounceConnect ex_lib_failing ex_p2p ex_proc) = Exited 1"
    "spawned (snd (snd (AnnounceConnect ex_lib_failing ex_p2p ex_proc))) = spawned ex_proc"
    by blast+
  from m3 discovery_failures_are_fatal
    [where e = "''bootstrap failed''" and L = ex_lib_failing and kaddht = "IpfsDHT 1"
       and c = Background and w = 0 and nodehost = ex_host]
  have "map_option (\<lambda>s1. (result s1, trace (bproc s1), tasks s1, enabled ex_lib_failing s1))
           (step ex_lib_failing Main (bootstrapDHT_init Background ex_host (IpfsDHT 1) 0))
         = Some (Some (Exited 1),
                 [EvBootstrap (IpfsDHT 1) Background (Some ''bootstrap failed''),
                  EvLog Fatal [(''error'', ''bootstrap failed'')]
                    [LStr ''Failed to Bootstrap the Kademlia!'']],
                 [], [])"
    by blast
  then have r3: "map_option result
        (step ex_lib_failing Main (bootstrapDHT_init Background ex_host (IpfsDHT 1) 0))
       = Some (Some (Exited 1))"
    by (auto simp: map_option_case split: option.splits)
  from r1 r2 r3 show ?thesis by (simp add: ex_proc_def)
qed

end
